theory Spec2Isabelle
  imports Complex_Main "HOL-Library.Word"
begin

unbundle bit_operations_syntax

section \<open>JavaScript strings\<close>

text \<open>
  A JavaScript string is a sequence of UTF-16 code units. The model uses \<open>string\<close> and so
  covers the strings whose code units are below 256 (Latin-1); a \<open>char\<close> is read as the
  code unit of that value. The functions below are the string methods and the regular
  expressions that \<^verbatim>\<open>ai-service.ts\<close> and \<^verbatim>\<open>main.ts\<close> use, each written out as the function
  on strings that it computes.
\<close>

definition isLineTerminator :: "char \<Rightarrow> bool" where
  "isLineTerminator c = (c = CHR 0x0A \<or> c = CHR 0x0D)"

text \<open>
  \<^verbatim>\<open>\s\<close> in a regular expression and the characters removed by \<^verbatim>\<open>trim()\<close> are the same
  set: tab, line feed, vertical tab, form feed, carriage return, space, no-break space.
\<close>

definition isWhiteSpace :: "char \<Rightarrow> bool" where
  "isWhiteSpace c =
     (c = CHR 0x09 \<or> c = CHR 0x0A \<or> c = CHR 0x0B \<or> c = CHR 0x0C \<or> c = CHR 0x0D
      \<or> c = CHR 0x20 \<or> c = CHR 0xA0)"

definition trim :: "string \<Rightarrow> string" where
  "trim s = rev (dropWhile isWhiteSpace (rev (dropWhile isWhiteSpace s)))"

definition startsWith :: "string \<Rightarrow> string \<Rightarrow> bool" where
  "startsWith s p = (take (length p) s = p)"

definition endsWith :: "string \<Rightarrow> string \<Rightarrow> bool" where
  "endsWith s p = (length p \<le> length s \<and> drop (length s - length p) s = p)"

text \<open>\<^verbatim>\<open>s.indexOf(p)\<close> and \<^verbatim>\<open>s.lastIndexOf(p)\<close>: an index, or \<open>-1\<close> when \<open>p\<close> does not occur.\<close>

fun indexFrom :: "string \<Rightarrow> string \<Rightarrow> nat \<Rightarrow> int" where
  "indexFrom [] p i = (if p = [] then int i else -1)"
| "indexFrom (c # s) p i =
     (if startsWith (c # s) p then int i else indexFrom s p (Suc i))"

definition indexOf :: "string \<Rightarrow> string \<Rightarrow> int" where
  "indexOf s p = indexFrom s p 0"

fun lastIndexFrom :: "string \<Rightarrow> string \<Rightarrow> nat \<Rightarrow> int" where
  "lastIndexFrom [] p i = (if p = [] then int i else -1)"
| "lastIndexFrom (c # s) p i =
     (let r = lastIndexFrom s p (Suc i)
      in if 0 \<le> r then r else if startsWith (c # s) p then int i else -1)"

definition lastIndexOf :: "string \<Rightarrow> string \<Rightarrow> int" where
  "lastIndexOf s p = lastIndexFrom s p 0"

definition includesStr :: "string \<Rightarrow> string \<Rightarrow> bool" where
  "includesStr s p = (indexOf s p \<noteq> -1)"

text \<open>\<^verbatim>\<open>s.substring(a, b)\<close>: both ends clamped to the string, and swapped when \<open>a > b\<close>.\<close>

definition substring :: "string \<Rightarrow> int \<Rightarrow> int \<Rightarrow> string" where
  "substring s a b =
     (let n = int (length s);
          a' = max 0 (min a n);
          b' = max 0 (min b n);
          lo = min a' b';
          hi = max a' b'
      in take (nat (hi - lo)) (drop (nat lo) s))"

text \<open>\<^verbatim>\<open>s.split(',')\<close>: the pieces between the separators; the empty string gives one empty piece.\<close>

fun splitOn :: "char \<Rightarrow> string \<Rightarrow> string list" where
  "splitOn sep [] = [[]]"
| "splitOn sep (c # s) =
     (if c = sep then [] # splitOn sep s
      else (let r = splitOn sep s in (c # hd r) # tl r))"

text \<open>\<^verbatim>\<open>s.replace(/['"]/g, '')\<close>: every single and double quote removed.\<close>

definition removeQuotes :: "string \<Rightarrow> string" where
  "removeQuotes s = filter (\<lambda>c. c \<noteq> CHR 0x27 \<and> c \<noteq> CHR 0x22) s"

text \<open>
  \<^verbatim>\<open>s.match(re)\<close> without the \<open>g\<close> flag returns the leftmost match: the matcher for one start
  position is tried at every suffix of the string, from the left.
\<close>

fun firstMatch :: "(string \<Rightarrow> 'a option) \<Rightarrow> string \<Rightarrow> 'a option" where
  "firstMatch m [] = m []"
| "firstMatch m (c # s) =
     (case m (c # s) of Some g \<Rightarrow> Some g | None \<Rightarrow> firstMatch m s)"

text \<open>
  \<^verbatim>\<open>/\{[\s\S]*\}/\<close>: the match starts at the first \<open>{\<close> and, the star being greedy, ends at
  the last \<open>}\<close> of the string; there is no match when no \<open>}\<close> follows the first \<open>{\<close>.
  The result is the matched text, \<^verbatim>\<open>jsonMatch[0]\<close>.
\<close>

definition matchJsonObject :: "string \<Rightarrow> string option" where
  "matchJsonObject s =
     (let r = dropWhile (\<lambda>c. c \<noteq> CHR ''{'') s
      in if CHR ''}'' \<in> set r
         then Some (rev (dropWhile (\<lambda>c. c \<noteq> CHR ''}'') (rev r)))
         else None)"

text \<open>
  \<^verbatim>\<open>/"tags"\s*:\s*\[([\s\S]*?)\]/\<close>, \<^verbatim>\<open>/"summary"\s*:\s*"([^"]*)"/\<close> and
  \<^verbatim>\<open>/"summary"\s*:\s*'([^']*)'/\<close> have one shape: a key, white space, a colon, white space,
  an opening character, and then the captured text up to the first closing character
  (the lazy \<^verbatim>\<open>[\s\S]*?\<close> stops at the first \<open>]\<close>, and \<^verbatim>\<open>[^"]*\<close> cannot pass a quote).
  The colon and the opening character are not white space, so the greedy \<^verbatim>\<open>\s*\<close> never has
  to give characters back. The result is capture group 1 of the match at this position.
\<close>

definition matchFieldAt :: "string \<Rightarrow> char \<Rightarrow> char \<Rightarrow> string \<Rightarrow> string option" where
  "matchFieldAt key opn cls s =
     (if startsWith s key then
        (case dropWhile isWhiteSpace (drop (length key) s) of
           [] \<Rightarrow> None
         | c # r \<Rightarrow>
             if c = CHR '':'' then
               (case dropWhile isWhiteSpace r of
                  [] \<Rightarrow> None
                | d # body \<Rightarrow>
                    if d = opn \<and> cls \<in> set body
                    then Some (takeWhile (\<lambda>x. x \<noteq> cls) body)
                    else None)
             else None)
      else None)"

definition matchField :: "string \<Rightarrow> char \<Rightarrow> char \<Rightarrow> string \<Rightarrow> string option" where
  "matchField key opn cls s = firstMatch (matchFieldAt key opn cls) s"

text \<open>
  \<^verbatim>\<open>/summary[^:]*:\s*(.+?)(?:\n|$)/i\<close>. The word is matched without regard to case (for
  code units below 256 only the ASCII letters have a case variant that canonicalises to
  them). \<^verbatim>\<open>[^:]*\<close> runs to the first colon. The dot matches no line terminator, so the lazy
  group takes the whole run of characters up to the next line terminator, and the match
  succeeds when that run is not empty and is followed by a line feed or by the end of the
  string. The greedy \<^verbatim>\<open>\s*\<close> first takes all the white space and gives characters back one
  at a time while the rest fails.
\<close>

definition toLowerAscii :: "char \<Rightarrow> char" where
  "toLowerAscii c =
     (let n = (of_char c :: nat) in if 65 \<le> n \<and> n \<le> 90 then char_of (n + 32) else c)"

definition looseCapture :: "string \<Rightarrow> string option" where
  "looseCapture s =
     (let run = takeWhile (\<lambda>c. \<not> isLineTerminator c) s;
          rest = dropWhile (\<lambda>c. \<not> isLineTerminator c) s
      in if run \<noteq> [] \<and> (rest = [] \<or> hd rest = CHR 0x0A) then Some run else None)"

fun looseAfterColon :: "string \<Rightarrow> string option" where
  "looseAfterColon [] = looseCapture []"
| "looseAfterColon (c # s) =
     (if isWhiteSpace c then
        (case looseAfterColon s of
           Some g \<Rightarrow> Some g
         | None \<Rightarrow> looseCapture (c # s))
      else looseCapture (c # s))"

definition matchLooseSummaryAt :: "string \<Rightarrow> string option" where
  "matchLooseSummaryAt s =
     (if map toLowerAscii (take 7 s) = ''summary'' then
        (case dropWhile (\<lambda>c. c \<noteq> CHR '':'') (drop 7 s) of
           [] \<Rightarrow> None
         | c # r \<Rightarrow> looseAfterColon r)
      else None)"

definition matchLooseSummary :: "string \<Rightarrow> string option" where
  "matchLooseSummary s = firstMatch matchLooseSummaryAt s"

section \<open>Numbers\<close>

text \<open>
  A JavaScript number is an IEEE 754 binary64 value, and every arithmetic operation
  returns the exact result rounded to the nearest such value. Where the values of a
  computation are counts, prices, and sums and quotients of these (the hash embedding,
  the cost ledger), the model keeps them as reals and takes the rounding as a parameter
  \<open>rnd\<close>, applied to the result of every operation: with the identity the arithmetic is
  exact, with \<open>round64\<close> it is that of the platform as long as the results stay below
  \<open>2\<^sup>1\<^sup>0\<^sup>2\<^sup>4\<close>. Where the values come from outside (the embedding vectors), the model has
  the type \<open>number\<close> below, with the infinities, \<^verbatim>\<open>NaN\<close> and the negative zero.
\<close>

definition roundHalfEven :: "real \<Rightarrow> int" where
  "roundHalfEven y =
     (let f = \<lfloor>y\<rfloor>; d = y - of_int f
      in if d < 1 / 2 then f else if 1 / 2 < d then f + 1 else if even f then f else f + 1)"

text \<open>
  Round to nearest, ties to even, with a 53-bit significand: the unit in the last place of
  \<open>x\<close> is \<open>2\<close> to the power \<open>\<lfloor>log\<^sub>2 \<bar>x\<bar>\<rfloor> - 52\<close>, and not below \<open>2\<close> to the \<open>-1074\<close> (the
  subnormal range).
\<close>

definition round64 :: "real \<Rightarrow> real" where
  "round64 x =
     (if x = 0 then 0
      else (let e = max \<lfloor>log 2 \<bar>x\<bar>\<rfloor> (- 1022) - 52
            in of_int (roundHalfEven (x / 2 powi e)) * 2 powi e))"

text \<open>
  The values of the type \<^verbatim>\<open>number\<close>: a finite value (\<open>Fin 0\<close> is the positive zero), the
  negative zero, the two infinities and \<^verbatim>\<open>NaN\<close>. On the platform the finite values are
  the doubles; the type has every real, so that exact arithmetic can be stated as well.
\<close>

datatype number = Fin real | NegZero | PosInf | NegInf | NaN

definition isZero :: "number \<Rightarrow> bool" where
  "isZero a = (a = Fin 0 \<or> a = NegZero)"

definition isInfinite :: "number \<Rightarrow> bool" where
  "isInfinite a = (a = PosInf \<or> a = NegInf)"

text \<open>\<^verbatim>\<open>Number.isFinite\<close>\<close>

definition isFinite :: "number \<Rightarrow> bool" where
  "isFinite a = (a \<noteq> PosInf \<and> a \<noteq> NegInf \<and> a \<noteq> NaN)"

text \<open>The sign bit, and the real value of a finite number.\<close>

fun negative :: "number \<Rightarrow> bool" where
  "negative (Fin x) = (x < 0)"
| "negative NegZero = True"
| "negative PosInf = False"
| "negative NegInf = True"
| "negative NaN = False"

fun valueOf :: "number \<Rightarrow> real" where
  "valueOf (Fin x) = x"
| "valueOf a = 0"

definition signedZero :: "bool \<Rightarrow> number" where
  "signedZero neg = (if neg then NegZero else Fin 0)"

definition signedInf :: "bool \<Rightarrow> number" where
  "signedInf neg = (if neg then NegInf else PosInf)"

text \<open>
  The binary64 value of an exact result \<open>x\<close>: the rounded value, an infinity when the
  rounded value is \<open>2\<^sup>1\<^sup>0\<^sup>2\<^sup>4\<close> or more in magnitude (the largest double is below it by one
  unit in the last place), and a zero with the sign of \<open>x\<close> when the rounded value is 0.
  The exact result 0 of an addition is the positive zero.
\<close>

definition double :: "real \<Rightarrow> number" where
  "double x =
     (let r = round64 x
      in if 2 ^ 1024 \<le> \<bar>r\<bar> then signedInf (x < 0)
         else if r = 0 then signedZero (x < 0)
         else Fin r)"

text \<open>
  The operators \<^verbatim>\<open>*\<close>, \<^verbatim>\<open>+\<close>, \<^verbatim>\<open>-\<close>, \<^verbatim>\<open>/\<close> and \<^verbatim>\<open>Math.sqrt\<close>. The special cases are those of
  IEEE 754; the result of two finite non-zero operands is their exact result under the
  rounding \<open>rnd\<close>, which is \<open>double\<close> on the platform and \<open>Fin\<close> in exact arithmetic.
\<close>

definition numMul :: "(real \<Rightarrow> number) \<Rightarrow> number \<Rightarrow> number \<Rightarrow> number" where
  "numMul rnd a b =
     (if a = NaN \<or> b = NaN then NaN
      else if isInfinite a \<or> isInfinite b then
        (if isZero a \<or> isZero b then NaN else signedInf (negative a \<noteq> negative b))
      else if isZero a \<or> isZero b then signedZero (negative a \<noteq> negative b)
      else rnd (valueOf a * valueOf b))"

definition numAdd :: "(real \<Rightarrow> number) \<Rightarrow> number \<Rightarrow> number \<Rightarrow> number" where
  "numAdd rnd a b =
     (if a = NaN \<or> b = NaN then NaN
      else if isInfinite a then (if isInfinite b \<and> a \<noteq> b then NaN else a)
      else if isInfinite b then b
      else if isZero a \<and> isZero b then (if a = NegZero \<and> b = NegZero then NegZero else Fin 0)
      else rnd (valueOf a + valueOf b))"



definition numDiv :: "(real \<Rightarrow> number) \<Rightarrow> number \<Rightarrow> number \<Rightarrow> number" where
  "numDiv rnd a b =
     (if a = NaN \<or> b = NaN then NaN
      else if isInfinite a then
        (if isInfinite b then NaN else signedInf (negative a \<noteq> negative b))
      else if isInfinite b then signedZero (negative a \<noteq> negative b)
      else if isZero b then
        (if isZero a then NaN else signedInf (negative a \<noteq> negative b))
      else if isZero a then signedZero (negative a \<noteq> negative b)
      else rnd (valueOf a / valueOf b))"

fun numSqrt :: "(real \<Rightarrow> number) \<Rightarrow> number \<Rightarrow> number" where
  "numSqrt rnd (Fin x) = (if x < 0 then NaN else if x = 0 then Fin 0 else rnd (sqrt x))"
| "numSqrt rnd NegZero = NegZero"
| "numSqrt rnd PosInf = PosInf"
| "numSqrt rnd NegInf = NaN"
| "numSqrt rnd NaN = NaN"

text \<open>
  The comparisons \<^verbatim>\<open>===\<close>, \<^verbatim>\<open><\<close> and \<^verbatim>\<open>>=\<close>: each is false when an operand is \<^verbatim>\<open>NaN\<close>, and the
  two zeros are equal.
\<close>

definition strictEquals :: "number \<Rightarrow> number \<Rightarrow> bool" where
  "strictEquals a b = (a \<noteq> NaN \<and> b \<noteq> NaN \<and> (a = b \<or> (isZero a \<and> isZero b)))"



text \<open>
  Every double is a whole multiple of \<open>2\<close> to the \<open>-1074\<close>, the smallest positive double.
  \<open>onGrid\<close> says so of the value of a number.
\<close>

definition onGrid :: "number \<Rightarrow> bool" where
  "onGrid a = (\<exists>n::int. valueOf a = of_int n * 2 powi (- 1074))"

section \<open>The response parser (\<^verbatim>\<open>ai-service.ts\<close>)\<close>

text \<open>
  The \<^verbatim>\<open>Enhancement\<close> interface. Its field \<^verbatim>\<open>keywords\<close> is written \<open>keywords'\<close> here, the plain
  word being reserved in Isabelle.
\<close>

record Enhancement =
  tags :: "string list"
  keywords' :: "string list"
  links :: "string list"
  summary :: string

text \<open>A thrown JavaScript \<^verbatim>\<open>Error\<close>, with its message.\<close>

datatype error = Error string

text \<open>The values \<^verbatim>\<open>JSON.parse\<close> can return. An object is its table of own properties.\<close>

datatype json =
    JNull
  | JBool bool
  | JNum number
  | JStr string
  | JArr "json list"
  | JObj "(string \<times> json) list"

text \<open>
  \<^verbatim>\<open>parsed.links\<close>, \<^verbatim>\<open>parsed.tags\<close>, \<^verbatim>\<open>parsed.keywords\<close>, \<^verbatim>\<open>parsed.summary\<close>: reading a property of
  \<^verbatim>\<open>null\<close> throws a TypeError; an object gives its property, or \<^verbatim>\<open>undefined\<close> (\<open>None\<close>); a
  number, boolean, string or array has none of these four properties.
\<close>

fun getProp :: "json \<Rightarrow> string \<Rightarrow> error + json option" where
  "getProp JNull k = Inl (Error (''Cannot read properties of null (reading '' @ k @ '')''))"
| "getProp (JObj kvs) k = Inr (map_of kvs k)"
| "getProp v k = Inr None"

text \<open>\<^verbatim>\<open>xs.filter(t => typeof t === 'string' && t.length > 0)\<close>\<close>

fun nonEmptyStrings :: "json list \<Rightarrow> string list" where
  "nonEmptyStrings [] = []"
| "nonEmptyStrings (JStr s # xs) =
     (if 0 < length s then s # nonEmptyStrings xs else nonEmptyStrings xs)"
| "nonEmptyStrings (v # xs) = nonEmptyStrings xs"

text \<open>\<^verbatim>\<open>Array.isArray(v) ? v.filter(...) : []\<close>\<close>

fun stringArray :: "json option \<Rightarrow> string list" where
  "stringArray (Some (JArr xs)) = nonEmptyStrings xs"
| "stringArray v = []"

text \<open>The function mapped over the links, the same in the parser and in the fallback.\<close>

definition formatLink :: "string \<Rightarrow> string" where
  "formatLink link =
     (if startsWith link ''[['' \<and> endsWith link '']]'' then link
      else (let cleanLink = trim (removeQuotes link) in ''[['' @ cleanLink @ '']]''))"

text \<open>The removal of a Markdown code fence at the head of \<^verbatim>\<open>parseAIResponse\<close>.\<close>

definition stripFence :: "string \<Rightarrow> string" where
  "stripFence cleanResponse =
     (if includesStr cleanResponse ''```json'' then
        (let jsonStart = indexOf cleanResponse ''```json'' + 7;
             jsonEnd = lastIndexOf cleanResponse ''```''
         in if jsonEnd > jsonStart then trim (substring cleanResponse jsonStart jsonEnd)
            else cleanResponse)
      else if includesStr cleanResponse ''```'' then
        (let jsonStart = indexOf cleanResponse ''```'' + 3;
             jsonEnd = lastIndexOf cleanResponse ''```''
         in if jsonEnd > jsonStart then trim (substring cleanResponse jsonStart jsonEnd)
            else cleanResponse)
      else cleanResponse)"

definition cleanedResponse :: "string \<Rightarrow> string" where
  "cleanedResponse response =
     (let cleanResponse = stripFence (trim response)
      in case matchJsonObject cleanResponse of
           Some m \<Rightarrow> m
         | None \<Rightarrow> cleanResponse)"

text \<open>
  The body of the \<^verbatim>\<open>try\<close> block of \<^verbatim>\<open>parseAIResponse\<close>. \<^verbatim>\<open>JSON.parse\<close> belongs to the
  platform and is a parameter: it returns the parsed value or throws. The first property
  read, \<^verbatim>\<open>parsed.links\<close>, throws when the value is \<^verbatim>\<open>null\<close>.
\<close>

definition parseAIResponse_try ::
  "(string \<Rightarrow> error + json) \<Rightarrow> string \<Rightarrow> error + Enhancement" where
  "parseAIResponse_try JSON_parse response =
     (case JSON_parse (cleanedResponse response) of
        Inl e \<Rightarrow> Inl e
      | Inr parsed \<Rightarrow>
          (case getProp parsed ''links'' of
             Inl e \<Rightarrow> Inl e
           | Inr parsedLinks \<Rightarrow>
               (let formattedLinks = map formatLink (stringArray parsedLinks)
                in case getProp parsed ''tags'' of
                     Inl e \<Rightarrow> Inl e
                   | Inr parsedTags \<Rightarrow>
                       (case getProp parsed ''keywords'' of
                          Inl e \<Rightarrow> Inl e
                        | Inr parsedKeywords \<Rightarrow>
                            (case getProp parsed ''summary'' of
                               Inl e \<Rightarrow> Inl e
                             | Inr parsedSummary \<Rightarrow>
                                 Inr \<lparr> tags = stringArray parsedTags,
                                       keywords' = stringArray parsedKeywords,
                                       links = formattedLinks,
                                       summary = (case parsedSummary of
                                                    Some (JStr s) \<Rightarrow> trim s
                                                  | _ \<Rightarrow> []) \<rparr>)))))"

text \<open>\<^verbatim>\<open>str.split(',').map(t => t.trim().replace(/['"]/g, '')).filter(t => t.length > 0)\<close>\<close>

definition splitList :: "string \<Rightarrow> string list" where
  "splitList str =
     filter (\<lambda>t. 0 < length t) (map (\<lambda>t. removeQuotes (trim t)) (splitOn CHR '','' str))"

text \<open>
  \<^verbatim>\<open>extractWithFallback\<close>: every field starts empty and is set when its pattern is found.
  The three summary patterns are tried in order. Nothing in the body can throw on a
  string, so its \<^verbatim>\<open>try\<close> block always completes.
\<close>

definition extractWithFallback :: "string \<Rightarrow> Enhancement" where
  \<open>extractWithFallback response =
     (let tagsMatch = matchField ''"tags"'' CHR ''['' CHR '']'' response;
          keywordsMatch = matchField ''"keywords"'' CHR ''['' CHR '']'' response;
          linksMatch = matchField ''"links"'' CHR ''['' CHR '']'' response;
          summaryMatch =
            (case matchField ''"summary"'' CHR 0x22 CHR 0x22 response of
               Some g \<Rightarrow> Some g
             | None \<Rightarrow>
                 (case matchField ''"summary"'' CHR 0x27 CHR 0x27 response of
                    Some g \<Rightarrow> Some g
                  | None \<Rightarrow> matchLooseSummary response))
      in \<lparr> tags = (case tagsMatch of Some tagsStr \<Rightarrow> splitList tagsStr | None \<Rightarrow> []),
           keywords' = (case keywordsMatch of Some keywordsStr \<Rightarrow> splitList keywordsStr | None \<Rightarrow> []),
           links = (case linksMatch of
                      Some linksStr \<Rightarrow> map formatLink (splitList linksStr)
                    | None \<Rightarrow> []),
           summary = (case summaryMatch of Some g \<Rightarrow> trim g | None \<Rightarrow> []) \<rparr>)\<close>

text \<open>
  \<^verbatim>\<open>parseAIResponse\<close>: the \<^verbatim>\<open>try\<close> block, and in the \<^verbatim>\<open>catch\<close> the fallback on the raw
  response. The result type keeps an error branch, for what the function could throw.
\<close>

definition parseAIResponse ::
  "(string \<Rightarrow> error + json) \<Rightarrow> string \<Rightarrow> error + Enhancement" where
  "parseAIResponse JSON_parse response =
     (case parseAIResponse_try JSON_parse response of
        Inr enhancement \<Rightarrow> Inr enhancement
      | Inl e \<Rightarrow> Inr (extractWithFallback response))"

text \<open>What the specification calls a structurally valid Enhancement.\<close>

definition trimmed :: "string \<Rightarrow> bool" where
  "trimmed s = (trim s = s)"

definition bracketed :: "string \<Rightarrow> bool" where
  "bracketed l = (startsWith l ''[['' \<and> endsWith l '']]'')"

definition validEnhancement :: "Enhancement \<Rightarrow> bool" where
  "validEnhancement e =
     ((\<forall>t \<in> set (tags e). t \<noteq> []) \<and>
      (\<forall>k \<in> set (keywords' e). k \<noteq> []) \<and>
      (\<forall>l \<in> set (links e). l \<noteq> [] \<and> bracketed l) \<and>
      trimmed (summary e))"


section \<open>The provider calls (\<^verbatim>\<open>ai-service.ts\<close>)\<close>

text \<open>
  The vendors' services are outside the program. What a call brings back is part of the
  input of the model: for the two SDK clients, whether the client was created and, if so,
  the outcome of the request together with the reading of the text out of the reply (a
  thrown error, or the text); for the three \<^verbatim>\<open>requestUrl\<close> providers, a thrown error or a
  response with its status, where \<open>reply\<close> is the outcome of reading the text out of
  \<^verbatim>\<open>response.json\<close> (it throws when the body has not the expected shape).
\<close>

record response =
  status :: nat
  reply :: "error + string"

record backend =
  openaiClient :: "(error + string) option"
  googleClient :: "(error + string) option"
  grokRequest :: "error + response"
  azureRequest :: "error + response"
  localRequest :: "error + response"

text \<open>The decimal digits of a number, as the template literal \<^verbatim>\<open>${response.status}\<close> prints it.\<close>

fun showNat :: "nat \<Rightarrow> string" where
  "showNat n =
     (if n < 10 then [char_of (48 + n)]
      else showNat (n div 10) @ [char_of (48 + n mod 10)])"

definition callOpenAI :: "backend \<Rightarrow> error + string" where
  "callOpenAI b =
     (case openaiClient b of
        None \<Rightarrow> Inl (Error ''OpenAI client not initialized'')
      | Some r \<Rightarrow> r)"

definition callGoogle :: "backend \<Rightarrow> error + string" where
  "callGoogle b =
     (case googleClient b of
        None \<Rightarrow> Inl (Error ''Google client not initialized'')
      | Some r \<Rightarrow> r)"

definition callGrok :: "backend \<Rightarrow> error + string" where
  "callGrok b =
     (case grokRequest b of
        Inl e \<Rightarrow> Inl e
      | Inr resp \<Rightarrow>
          if status resp \<noteq> 200 then Inl (Error (''Grok API error: '' @ showNat (status resp)))
          else reply resp)"

definition callAzure :: "backend \<Rightarrow> error + string" where
  "callAzure b =
     (case azureRequest b of
        Inl e \<Rightarrow> Inl e
      | Inr resp \<Rightarrow>
          if status resp \<noteq> 200 then Inl (Error (''Azure API error: '' @ showNat (status resp)))
          else reply resp)"

definition callLocal :: "backend \<Rightarrow> error + string" where
  "callLocal b =
     (case localRequest b of
        Inl e \<Rightarrow> Inl e
      | Inr resp \<Rightarrow>
          if status resp \<noteq> 200 then Inl (Error (''Local LLM error: '' @ showNat (status resp)))
          else reply resp)"

text \<open>The \<^verbatim>\<open>switch\<close> of \<^verbatim>\<open>generateEnhancement\<close> on \<^verbatim>\<open>this.settings.aiProvider\<close>.\<close>

definition callProvider :: "string \<Rightarrow> backend \<Rightarrow> error + string" where
  "callProvider aiProvider b =
     (if aiProvider = ''openai'' then callOpenAI b
      else if aiProvider = ''google'' then callGoogle b
      else if aiProvider = ''grok'' then callGrok b
      else if aiProvider = ''azure'' then callAzure b
      else if aiProvider = ''local'' then callLocal b
      else Inl (Error (''Unsupported AI provider: '' @ aiProvider)))"



section \<open>The hash embedding (\<^verbatim>\<open>ai-service.ts\<close>)\<close>










section \<open>Similarity ranking (\<^verbatim>\<open>main.ts\<close>)\<close>

record NoteEmbedding =
  path :: string
  content :: string
  embedding :: "number list"
  lastUpdated :: int

text \<open>
  A \<^verbatim>\<open>Map<string, V>\<close> is the list of its entries in insertion order, with one entry for
  each key: \<^verbatim>\<open>set\<close> replaces the value of a key that is there and appends a new key,
  \<^verbatim>\<open>new Map(data)\<close> sets the pairs of \<open>data\<close> in order.
\<close>

fun mapSet :: "(string \<times> 'v) list \<Rightarrow> string \<Rightarrow> 'v \<Rightarrow> (string \<times> 'v) list" where
  "mapSet [] k v = [(k, v)]"
| "mapSet ((k', v') # m) k v = (if k' = k then (k, v) # m else (k', v') # mapSet m k v)"


definition mapDelete :: "(string \<times> 'v) list \<Rightarrow> string \<Rightarrow> (string \<times> 'v) list" where
  "mapDelete m k = filter (\<lambda>kv. fst kv \<noteq> k) m"

definition mapFromEntries :: "(string \<times> 'v) list \<Rightarrow> (string \<times> 'v) list" where
  "mapFromEntries data = foldl (\<lambda>m kv. mapSet m (fst kv) (snd kv)) [] data"

text \<open>
  The loop of \<^verbatim>\<open>cosineSimilarity\<close> over the indices of \<open>a\<close>, run when the two lengths are
  equal: the three sums, carried along the pairs \<open>(a[i], b[i])\<close>.
\<close>

fun cosineSums ::
  "(real \<Rightarrow> number) \<Rightarrow> (number \<times> number) list \<Rightarrow> number \<times> number \<times> number
     \<Rightarrow> number \<times> number \<times> number" where
  "cosineSums rnd [] acc = acc"
| "cosineSums rnd ((x, y) # xys) (dotProduct, normA, normB) =
     cosineSums rnd xys
       (numAdd rnd dotProduct (numMul rnd x y),
        numAdd rnd normA (numMul rnd x x),
        numAdd rnd normB (numMul rnd y y))"

definition cosineSimilarity :: "(real \<Rightarrow> number) \<Rightarrow> number list \<Rightarrow> number list \<Rightarrow> number" where
  "cosineSimilarity rnd a b =
     (if length a \<noteq> length b then Fin 0
      else (case cosineSums rnd (zip a b) (Fin 0, Fin 0, Fin 0) of
              (dotProduct, normA, normB) \<Rightarrow>
                if strictEquals normA (Fin 0) \<or> strictEquals normB (Fin 0) then Fin 0
                else numDiv rnd dotProduct
                       (numMul rnd (numSqrt rnd normA) (numSqrt rnd normB))))"





section \<open>Settings and the cost ledger (\<^verbatim>\<open>main.ts\<close>)\<close>

record SANESettings =
  aiProvider :: string
  openaiApiKey :: string
  googleApiKey :: string
  grokApiKey :: string
  azureApiKey :: string
  azureEndpoint :: string
  localEndpoint :: string
  relevantNotesCount :: nat
  dailyBudget :: real
  costTracking :: bool
  enableTags :: bool
  enableKeywords :: bool
  enableLinks :: bool
  enableSummary :: bool
  enableCreationTimestamp :: bool
  enableModificationTimestamp :: bool




record CostEntry =
  timestamp :: int
  operation :: string
  cost :: real
  provider :: string




section \<open>Cleaning a note (\<^verbatim>\<open>main.ts\<close>)\<close>





section \<open>Front-matter (\<^verbatim>\<open>main.ts\<close>)\<close>




















section \<open>The pipeline (\<^verbatim>\<open>main.ts\<close>)\<close>












section \<open>Persistence (\<^verbatim>\<open>main.ts\<close>)\<close>

text \<open>
  \<^verbatim>\<open>saveEmbeddings\<close> and \<^verbatim>\<open>loadEmbeddings\<close> work on the map as JavaScript data, and nothing
  checks what is loaded: here a \<^verbatim>\<open>Map\<close> is the list of its entries in insertion order,
  keys and values being JavaScript values, with \<open>None\<close> for \<^verbatim>\<open>undefined\<close>. The object of a
  \<^verbatim>\<open>NoteEmbedding\<close> has its four properties in the order in which \<^verbatim>\<open>processNote\<close> writes
  them, and \<open>storeMap\<close> is the map of the plugin as such data.
\<close>

type_synonym jsMap = "(json option \<times> json option) list"

definition noteValue :: "NoteEmbedding \<Rightarrow> json" where
  "noteValue n =
     JObj [(''path'', JStr (path n)),
           (''content'', JStr (content n)),
           (''embedding'', JArr (map JNum (embedding n))),
           (''lastUpdated'', JNum (Fin (of_int (lastUpdated n))))]"

definition storeMap :: "(string \<times> NoteEmbedding) list \<Rightarrow> jsMap" where
  "storeMap m = map (\<lambda>kv. (Some (JStr (fst kv)), Some (noteValue (snd kv)))) m"

text \<open>
  \<^verbatim>\<open>Array.from(this.noteEmbeddings.entries())\<close>: the array of the pairs \<^verbatim>\<open>[key, value]\<close>. It
  is built to be written as JSON, which has \<^verbatim>\<open>null\<close> for an \<^verbatim>\<open>undefined\<close> element of an
  array.
\<close>

fun orNull :: "json option \<Rightarrow> json" where
  "orNull None = JNull"
| "orNull (Some v) = v"

definition entriesData :: "jsMap \<Rightarrow> json" where
  "entriesData m = JArr (map (\<lambda>kv. JArr [orNull (fst kv), orNull (snd kv)]) m)"

text \<open>
  \<^verbatim>\<open>JSON.stringify\<close> writes the text of a JSON value, and JSON has the finite numbers only,
  with one zero: \<open>serialized v\<close> is the JSON value whose text is written for \<open>v\<close>, with
  \<^verbatim>\<open>null\<close> in the place of an infinity or of \<^verbatim>\<open>NaN\<close>, and \<open>0\<close> in the place of the negative
  zero.
\<close>

fun serialized :: "json \<Rightarrow> json" where
  "serialized (JNum a) =
     (if isFinite a then (if a = NegZero then JNum (Fin 0) else JNum a) else JNull)"
| "serialized (JArr xs) = JArr (map serialized xs)"
| "serialized (JObj kvs) = JObj (map (\<lambda>(k, v). (k, serialized v)) kvs)"
| "serialized v = v"

text \<open>
  \<^verbatim>\<open>new Map(data)\<close>: \<open>data\<close> is \<^verbatim>\<open>null\<close> or can be iterated, or a TypeError is thrown; an
  array gives its elements and a string its characters. Each item must be an object
  (an array is one), or a TypeError is thrown; the key is its property \<open>0\<close> and the value
  its property \<open>1\<close>.
\<close>

fun iterableItems :: "json \<Rightarrow> error + json list" where
  "iterableItems JNull = Inr []"
| "iterableItems (JArr xs) = Inr xs"
| "iterableItems (JStr s) = Inr (map (\<lambda>c. JStr [c]) s)"
| "iterableItems v = Inl (Error ''object is not iterable'')"

fun entryOf :: "json \<Rightarrow> error + (json option \<times> json option)" where
  "entryOf (JArr xs) =
     Inr (if 0 < length xs then Some (xs ! 0) else None,
          if 1 < length xs then Some (xs ! 1) else None)"
| "entryOf (JObj kvs) = Inr (map_of kvs ''0'', map_of kvs ''1'')"
| "entryOf v = Inl (Error ''Iterator value is not an entry object'')"

text \<open>
  The keys of a \<^verbatim>\<open>Map\<close> are compared by \<^verbatim>\<open>SameValueZero\<close>: \<^verbatim>\<open>NaN\<close> is the same as \<^verbatim>\<open>NaN\<close> and
  the two zeros are the same, and an array or an object is the same as itself only, so
  that no two of those that \<^verbatim>\<open>JSON.parse\<close> has made are the same. \<^verbatim>\<open>set\<close> replaces the value
  of a key that is there and appends a new key, the negative zero as the positive one.
\<close>

definition sameValueZero :: "json option \<Rightarrow> json option \<Rightarrow> bool" where
  "sameValueZero a b =
     (case (a, b) of
        (Some (JArr xs), _) \<Rightarrow> False
      | (Some (JObj kvs), _) \<Rightarrow> False
      | (Some (JNum x), Some (JNum y)) \<Rightarrow> x = y \<or> (isZero x \<and> isZero y)
      | _ \<Rightarrow> a = b)"

fun jsMapSet :: "jsMap \<Rightarrow> json option \<Rightarrow> json option \<Rightarrow> jsMap" where
  "jsMapSet [] k v = [(if k = Some (JNum NegZero) then Some (JNum (Fin 0)) else k, v)]"
| "jsMapSet ((k', v') # m) k v =
     (if sameValueZero k' k then (k', v) # m else (k', v') # jsMapSet m k v)"

fun setEntries :: "json list \<Rightarrow> jsMap \<Rightarrow> error + jsMap" where
  "setEntries [] m = Inr m"
| "setEntries (item # items) m =
     (case entryOf item of
        Inl e \<Rightarrow> Inl e
      | Inr (k, v) \<Rightarrow> setEntries items (jsMapSet m k v))"

definition newMap :: "json \<Rightarrow> error + jsMap" where
  "newMap data =
     (case iterableItems data of
        Inl e \<Rightarrow> Inl e
      | Inr items \<Rightarrow> setEntries items [])"

text \<open>
  The item \<^verbatim>\<open>sane-embeddings\<close> of the local storage is a text or absent. The texts belong
  to the platform: \<open>stringify j\<close> is the text that \<^verbatim>\<open>JSON.stringify\<close> writes for the JSON
  value \<open>j\<close>, \<open>parse\<close> is \<^verbatim>\<open>JSON.parse\<close>, which returns a value or throws, and \<open>setItem\<close> says
  whether storing a text throws (the storage can be full). Both functions catch every
  error and then leave things as they were.
\<close>

definition saveEmbeddings ::
  "(json \<Rightarrow> string) \<Rightarrow> (string \<Rightarrow> error option) \<Rightarrow> jsMap \<Rightarrow> string option \<Rightarrow> string option" where
  "saveEmbeddings stringify setItem m stored =
     (let data = entriesData m;
          text = stringify (serialized data)
      in case setItem text of Some e \<Rightarrow> stored | None \<Rightarrow> Some text)"

definition loadEmbeddings ::
  "(string \<Rightarrow> error + json) \<Rightarrow> string option \<Rightarrow> jsMap \<Rightarrow> jsMap" where
  "loadEmbeddings parse stored m =
     (case stored of
        None \<Rightarrow> m
      | Some text \<Rightarrow>
          if text = [] then m
          else (case parse text of
                  Inl e \<Rightarrow> m
                | Inr data \<Rightarrow> (case newMap data of Inl e \<Rightarrow> m | Inr loaded \<Rightarrow> loaded)))"



section \<open>Example inputs\<close>









section \<open>Verified properties\<close>

subsection \<open>The response parser is total and its result is well formed\<close>

lemma dropWhile_hd: "dropWhile P xs \<noteq> [] \<Longrightarrow> \<not> P (hd (dropWhile P xs))"
  by (simp add: hd_dropWhile)

lemma dropWhile_id: "xs = [] \<or> \<not> P (hd xs) \<Longrightarrow> dropWhile P xs = xs"
  by (cases xs) auto

lemma trim_fixed:
  assumes "s = [] \<or> (\<not> isWhiteSpace (hd s) \<and> \<not> isWhiteSpace (last s))"
  shows "trim s = s"
proof (cases "s = []")
  case True
  then show ?thesis by (simp add: trim_def)
next
  case False
  with assms have h: "\<not> isWhiteSpace (hd s)" and l: "\<not> isWhiteSpace (last s)" by auto
  from False h have "dropWhile isWhiteSpace s = s" by (simp add: dropWhile_id)
  moreover from False l have "dropWhile isWhiteSpace (rev s) = rev s"
    by (intro dropWhile_id) (simp add: hd_rev)
  ultimately show ?thesis by (simp add: trim_def)
qed

lemma trim_ends:
  "trim s = [] \<or> (\<not> isWhiteSpace (hd (trim s)) \<and> \<not> isWhiteSpace (last (trim s)))"
proof (cases "trim s = []")
  case True
  then show ?thesis by simp
next
  case False
  define t where "t = dropWhile isWhiteSpace s"
  define u where "u = dropWhile isWhiteSpace (rev t)"
  have ts: "trim s = rev u" by (simp add: trim_def t_def u_def)
  with False have un: "u \<noteq> []" by simp
  then have hu: "\<not> isWhiteSpace (hd u)" unfolding u_def by (rule dropWhile_hd)
  from un have tn: "t \<noteq> []" unfolding u_def by auto
  then have ht: "\<not> isWhiteSpace (hd t)" unfolding t_def by (rule dropWhile_hd)
  obtain v where v: "rev t = v @ u"
    unfolding u_def by (metis takeWhile_dropWhile_id)
  then have "t = rev u @ rev v" by (metis rev_append rev_rev_ident)
  with un have "hd (rev u) = hd t" by simp
  with ht hu un show ?thesis by (simp add: ts last_rev)
qed

lemma trim_trim: "trim (trim s) = trim s"
  using trim_ends [of s] by (rule trim_fixed)

lemma trimmed_trim: "trimmed (trim s)"
  by (simp add: trimmed_def trim_trim)

lemma trimmed_Nil: "trimmed []"
  by (simp add: trimmed_def trim_def)

lemma formatLink_bracketed: "bracketed (formatLink l)"
  by (auto simp: formatLink_def bracketed_def startsWith_def endsWith_def Let_def)

lemma bracketed_nonempty: "bracketed l \<Longrightarrow> l \<noteq> []"
  by (auto simp: bracketed_def startsWith_def)

lemma formatLink_all: "\<forall>l \<in> set (map formatLink xs). l \<noteq> [] \<and> bracketed l"
  using formatLink_bracketed bracketed_nonempty by auto


lemma nonEmptyStrings_nonempty: "t \<in> set (nonEmptyStrings xs) \<Longrightarrow> t \<noteq> []"
  by (induction xs rule: nonEmptyStrings.induct) (auto split: if_splits)

lemma stringArray_nonempty: "t \<in> set (stringArray v) \<Longrightarrow> t \<noteq> []"
  by (induction v rule: stringArray.induct) (auto dest: nonEmptyStrings_nonempty)

lemma stringArray_all_nonempty: "\<forall>t \<in> set (stringArray v). t \<noteq> []"
  using stringArray_nonempty by blast

lemma splitList_nonempty: "t \<in> set (splitList str) \<Longrightarrow> t \<noteq> []"
  by (auto simp: splitList_def)

lemma splitList_all_nonempty: "\<forall>t \<in> set (splitList str). t \<noteq> []"
  by (simp add: splitList_def)

lemma tags_extractWithFallback:
  \<open>tags (extractWithFallback r) =
     (case matchField ''"tags"'' CHR ''['' CHR '']'' r of Some s \<Rightarrow> splitList s | None \<Rightarrow> [])\<close>
  by (simp add: extractWithFallback_def Let_def)

lemma keywords_extractWithFallback:
  \<open>keywords' (extractWithFallback r) =
     (case matchField ''"keywords"'' CHR ''['' CHR '']'' r of Some s \<Rightarrow> splitList s | None \<Rightarrow> [])\<close>
  by (simp add: extractWithFallback_def Let_def)

lemma links_extractWithFallback:
  \<open>links (extractWithFallback r) =
     (case matchField ''"links"'' CHR ''['' CHR '']'' r of
        Some s \<Rightarrow> map formatLink (splitList s) | None \<Rightarrow> [])\<close>
  by (simp add: extractWithFallback_def Let_def)

lemma summary_extractWithFallback_trimmed: "trimmed (summary (extractWithFallback r))"
  by (simp add: extractWithFallback_def Let_def trimmed_trim trimmed_Nil split: option.splits)

lemma extractWithFallback_valid: "validEnhancement (extractWithFallback r)"
  unfolding validEnhancement_def
proof (intro conjI)
  show "\<forall>t \<in> set (tags (extractWithFallback r)). t \<noteq> []"
    using splitList_all_nonempty by (auto simp: tags_extractWithFallback split: option.splits)
  show "\<forall>k \<in> set (keywords' (extractWithFallback r)). k \<noteq> []"
    using splitList_all_nonempty by (auto simp: keywords_extractWithFallback split: option.splits)
  show "\<forall>l \<in> set (links (extractWithFallback r)). l \<noteq> [] \<and> bracketed l"
    using formatLink_all by (auto simp: links_extractWithFallback split: option.splits)
  show "trimmed (summary (extractWithFallback r))"
    by (rule summary_extractWithFallback_trimmed)
qed

lemma parseAIResponse_try_shape:
  assumes "parseAIResponse_try jp r = Inr e"
  shows "\<exists>a b c d. e = \<lparr> tags = stringArray a, keywords' = stringArray b,
                          links = map formatLink (stringArray c), summary = d \<rparr> \<and> trimmed d"
  using assms
  by (auto simp: parseAIResponse_try_def Let_def trimmed_trim trimmed_Nil
      split: sum.splits option.splits json.splits)

lemma parseAIResponse_try_valid:
  assumes "parseAIResponse_try jp r = Inr e"
  shows "validEnhancement e"
proof -
  from parseAIResponse_try_shape [OF assms] obtain a b c d where
    e: "e = \<lparr> tags = stringArray a, keywords' = stringArray b,
               links = map formatLink (stringArray c), summary = d \<rparr>" and d: "trimmed d"
    by blast
  show ?thesis
    unfolding validEnhancement_def e
    using stringArray_all_nonempty formatLink_all d by simp
qed

text \<open>
  C1. For every input string and whatever \<^verbatim>\<open>JSON.parse\<close> does with the cleaned text,
  \<^verbatim>\<open>parseAIResponse\<close> returns an Enhancement and throws nothing; in the result every
  tag, keyword and link is a non-empty string, every link starts with \<open>[[\<close> and ends with
  \<open>]]\<close>, and the summary is a trimmed string.
\<close>

theorem parseAIResponse_total_valid:
  "\<exists>e. parseAIResponse JSON_parse response = Inr e \<and> validEnhancement e"
  by (auto simp: parseAIResponse_def extractWithFallback_valid
      dest: parseAIResponse_try_valid split: sum.splits)

theorem parseAIResponse_total_valid_witness:
  \<open>validEnhancement \<lparr> tags = [''a'', ''b''], keywords' = [], links = [''[[Note One]]''],
                       summary = ''short text'' \<rparr>\<close>
proof -
  have ev: \<open>parseAIResponse (\<lambda>s. Inl (Error ''Unexpected token''))
        ''{"tags": ["a", "b"], "links": ["Note One"], summary: short text''
     = Inr \<lparr> tags = [''a'', ''b''], keywords' = [], links = [''[[Note One]]''],
             summary = ''short text'' \<rparr>\<close>
    by code_simp
  from parseAIResponse_total_valid
    [of \<open>\<lambda>s. Inl (Error ''Unexpected token'')\<close>
        \<open>''{"tags": ["a", "b"], "links": ["Note One"], summary: short text''\<close>]
  show ?thesis unfolding ev by simp
qed

subsection \<open>The regex fallback\<close>

lemma firstMatch_append:
  "(\<And>i. i < length pre \<Longrightarrow> m (drop i pre @ s) = None) \<Longrightarrow>
   firstMatch m (pre @ s) = firstMatch m s"
proof (induction pre)
  case Nil
  then show ?case by simp
next
  case (Cons c pre)
  have "m ((c # pre) @ s) = None" using Cons.prems [of 0] by simp
  moreover have "firstMatch m (pre @ s) = firstMatch m s"
  proof (rule Cons.IH)
    fix i assume "i < length pre"
    then show "m (drop i pre @ s) = None" using Cons.prems [of "Suc i"] by simp
  qed
  ultimately show ?case by simp
qed

lemma indexFrom_none:
  "indexFrom s p k = -1 \<Longrightarrow> i \<le> length s \<Longrightarrow> \<not> startsWith (drop i s) p"
proof (induction s arbitrary: k i)
  case Nil
  then show ?case by (auto simp: startsWith_def split: if_splits)
next
  case (Cons c s)
  show ?case
  proof (cases i)
    case 0
    with Cons.prems show ?thesis by (auto split: if_splits)
  next
    case (Suc j)
    with Cons.prems Cons.IH [of "Suc k" j] show ?thesis by (auto split: if_splits)
  qed
qed

lemma not_includes_no_occurrence:
  "\<not> includesStr s p \<Longrightarrow> i \<le> length s \<Longrightarrow> \<not> startsWith (drop i s) p"
  using indexFrom_none [of s p 0 i] by (simp add: includesStr_def indexOf_def)

lemma short_list_cases:
  assumes "u \<noteq> []" "length u < 6"
  obtains a where "u = [a]"
  | a b where "u = [a, b]"
  | a b c where "u = [a, b, c]"
  | a b c d where "u = [a, b, c, d]"
  | a b c d e where "u = [a, b, c, d, e]"
proof -
  from assms have "length u = 1 \<or> length u = 2 \<or> length u = 3 \<or> length u = 4 \<or> length u = 5"
  proof -
    from assms(1) have "0 < length u" by simp
    with assms(2) show ?thesis by arith
  qed
  then show ?thesis
    by (elim disjE) (auto simp: length_Suc_conv numeral_eq_Suc intro: that)
qed

lemma tags_key_before:
  assumes "\<not> includesStr pre ''\"tags\"''" "i < length pre"
  shows \<open>matchFieldAt ''"tags"'' CHR ''['' CHR '']'' (drop i pre @ ''"tags": ["a", "b"]'' @ post) = None\<close>
proof -
  define u where "u = drop i pre"
  have un: "u \<noteq> []" using assms(2) by (simp add: u_def)
  have ns: \<open>\<not> startsWith u ''"tags"''\<close>
    using not_includes_no_occurrence [OF assms(1), of i] assms(2) by (simp add: u_def)
  show ?thesis
  proof (cases "length u < 6")
    case False
    then have \<open>take 6 (u @ ''"tags": ["a", "b"]'' @ post) = take 6 u\<close> by simp
    with ns show ?thesis by (simp add: matchFieldAt_def startsWith_def u_def [symmetric])
  next
    case True
    with un show ?thesis
      unfolding u_def [symmetric]
      by (cases u rule: short_list_cases)
         (auto simp: matchFieldAt_def startsWith_def isWhiteSpace_def)
  qed
qed

lemma tags_key_here:
  \<open>matchFieldAt ''"tags"'' CHR ''['' CHR '']'' (''"tags": ["a", "b"]'' @ post) = Some ''"a", "b"''\<close>
  by (simp add: matchFieldAt_def startsWith_def isWhiteSpace_def)

lemma splitList_ab: \<open>splitList ''"a", "b"'' = [''a'', ''b'']\<close>
  by (simp add: splitList_def trim_def removeQuotes_def isWhiteSpace_def)

lemma tags_first_occurrence:
  assumes \<open>\<not> includesStr pre ''"tags"''\<close>
  shows \<open>tags (extractWithFallback (pre @ ''"tags": ["a", "b"]'' @ post)) = [''a'', ''b'']\<close>
proof -
  have \<open>matchField ''"tags"'' CHR ''['' CHR '']'' (pre @ ''"tags": ["a", "b"]'' @ post)
        = firstMatch (matchFieldAt ''"tags"'' CHR ''['' CHR '']'') (''"tags": ["a", "b"]'' @ post)\<close>
    unfolding matchField_def using assms by (intro firstMatch_append tags_key_before)
  also have \<open>\<dots> = Some ''"a", "b"''\<close>
    using tags_key_here [of post] by simp
  finally show ?thesis
    by (simp add: extractWithFallback_def Let_def splitList_ab)
qed

lemma parseAIResponse_fallback:
  "JSON_parse (cleanedResponse raw) = Inl err \<Longrightarrow>
   parseAIResponse JSON_parse raw = Inr (extractWithFallback raw)"
  by (simp add: parseAIResponse_def parseAIResponse_try_def)

lemma summary_extractWithFallback:
  \<open>summary (extractWithFallback r) =
     (case matchField ''"summary"'' CHR 0x22 CHR 0x22 r of
        Some g \<Rightarrow> trim g
      | None \<Rightarrow>
          (case matchField ''"summary"'' CHR 0x27 CHR 0x27 r of
             Some g \<Rightarrow> trim g
           | None \<Rightarrow> (case matchLooseSummary r of Some g \<Rightarrow> trim g | None \<Rightarrow> [])))\<close>
  by (simp add: extractWithFallback_def Let_def split: option.splits)

text \<open>
  The tags pattern is matched at its leftmost position, so an earlier \<open>"tags"\<close> array in
  the output decides the result: an unterminated object with the key twice, which the
  cleaning step hands to \<^verbatim>\<open>JSON.parse\<close> unchanged, gives the tags of the first array.
\<close>

theorem fallback_tags_counterexample:
  \<open>includesStr ''{"tags": ["x"], "tags": ["a", "b"]'' ''"tags": ["a", "b"]''
   \<and> cleanedResponse ''{"tags": ["x"], "tags": ["a", "b"]'' = ''{"tags": ["x"], "tags": ["a", "b"]''
   \<and> tags (extractWithFallback ''{"tags": ["x"], "tags": ["a", "b"]'') = [''x'']
   \<and> tags (extractWithFallback ''{"tags": ["x"], "tags": ["a", "b"]'') \<noteq> [''a'', ''b'']\<close>
  by code_simp

text \<open>
  C8, as the code has it. When \<^verbatim>\<open>JSON.parse\<close> throws on the cleaned text, the parser
  returns what \<^verbatim>\<open>extractWithFallback\<close> extracts from the raw output; when the raw output
  contains \<open>"tags": ["a", "b"]\<close> and the text before it has no occurrence of \<open>"tags"\<close>,
  the tags are \<open>["a", "b"]\<close>; and each field whose pattern finds no match is left empty.
\<close>

theorem fallback_tags_first_occurrence:
  assumes \<open>JSON_parse (cleanedResponse raw) = Inl err\<close>
  shows \<open>parseAIResponse JSON_parse raw = Inr (extractWithFallback raw)
    \<and> (\<forall>pre post. raw = pre @ ''"tags": ["a", "b"]'' @ post \<longrightarrow> \<not> includesStr pre ''"tags"''
          \<longrightarrow> tags (extractWithFallback raw) = [''a'', ''b''])
    \<and> (matchField ''"tags"'' CHR ''['' CHR '']'' raw = None \<longrightarrow> tags (extractWithFallback raw) = [])
    \<and> (matchField ''"keywords"'' CHR ''['' CHR '']'' raw = None
          \<longrightarrow> keywords' (extractWithFallback raw) = [])
    \<and> (matchField ''"links"'' CHR ''['' CHR '']'' raw = None \<longrightarrow> links (extractWithFallback raw) = [])
    \<and> (matchField ''"summary"'' CHR 0x22 CHR 0x22 raw = None
          \<longrightarrow> matchField ''"summary"'' CHR 0x27 CHR 0x27 raw = None
          \<longrightarrow> matchLooseSummary raw = None \<longrightarrow> summary (extractWithFallback raw) = [])\<close>
proof (intro conjI allI impI)
  show "parseAIResponse JSON_parse raw = Inr (extractWithFallback raw)"
    using assms by (rule parseAIResponse_fallback)
next
  fix pre post
  assume r: \<open>raw = pre @ ''"tags": ["a", "b"]'' @ post\<close>
    and n: \<open>\<not> includesStr pre ''"tags"''\<close>
  show \<open>tags (extractWithFallback raw) = [''a'', ''b'']\<close>
    unfolding r using n by (rule tags_first_occurrence)
qed (simp_all add: tags_extractWithFallback keywords_extractWithFallback
      links_extractWithFallback summary_extractWithFallback)

theorem fallback_tags_first_occurrence_witness:
  \<open>parseAIResponse (\<lambda>s. Inl (Error ''Unexpected end of JSON input''))
      ''Sure: {"tags": ["a", "b"], "links": ["N"], and more''
    = Inr (extractWithFallback ''Sure: {"tags": ["a", "b"], "links": ["N"], and more'')
   \<and> tags (extractWithFallback ''Sure: {"tags": ["a", "b"], "links": ["N"], and more'') = [''a'', ''b'']
   \<and> keywords' (extractWithFallback ''Sure: {"tags": ["a", "b"], "links": ["N"], and more'') = []
   \<and> summary (extractWithFallback ''Sure: {"tags": ["a", "b"], "links": ["N"], and more'') = []\<close>
proof -
  let ?raw = \<open>''Sure: {"tags": ["a", "b"], "links": ["N"], and more''\<close>
  let ?jp = \<open>\<lambda>s::string. (Inl (Error ''Unexpected end of JSON input'') :: error + json)\<close>
  have h0: \<open>?jp (cleanedResponse ?raw) = Inl (Error ''Unexpected end of JSON input'')\<close>
    by simp
  have h1: \<open>?raw = ''Sure: {'' @ ''"tags": ["a", "b"]'' @ '', "links": ["N"], and more''\<close>
    by simp
  have h2: \<open>\<not> includesStr ''Sure: {'' ''"tags"''\<close>
    by code_simp
  have h3: \<open>matchField ''"keywords"'' CHR ''['' CHR '']'' ?raw = None\<close>
    by code_simp
  have h4: \<open>matchField ''"summary"'' CHR 0x22 CHR 0x22 ?raw = None\<close>
    by code_simp
  have h5: \<open>matchField ''"summary"'' CHR 0x27 CHR 0x27 ?raw = None\<close>
    by code_simp
  have h6: \<open>matchLooseSummary ?raw = None\<close>
    by code_simp
  from fallback_tags_first_occurrence [OF h0] h1 h2 h3 h4 h5 h6
  show ?thesis by blast
qed

subsection \<open>The enhancement call does not throw\<close>


lemma callProvider_non200:
  assumes "status resp \<noteq> 200"
  shows "grokRequest b = Inr resp \<Longrightarrow>
           callProvider ''grok'' b = Inl (Error (''Grok API error: '' @ showNat (status resp)))"
    and "azureRequest b = Inr resp \<Longrightarrow>
           callProvider ''azure'' b = Inl (Error (''Azure API error: '' @ showNat (status resp)))"
    and "localRequest b = Inr resp \<Longrightarrow>
           callProvider ''local'' b = Inl (Error (''Local LLM error: '' @ showNat (status resp)))"
  using assms by (simp_all add: callProvider_def callGrok_def callAzure_def callLocal_def)

lemma callProvider_thrown:
  shows "openaiClient b = Some (Inl e) \<Longrightarrow> callProvider ''openai'' b = Inl e"
    and "openaiClient b = None \<Longrightarrow>
           callProvider ''openai'' b = Inl (Error ''OpenAI client not initialized'')"
    and "googleClient b = Some (Inl e) \<Longrightarrow> callProvider ''google'' b = Inl e"
    and "googleClient b = None \<Longrightarrow>
           callProvider ''google'' b = Inl (Error ''Google client not initialized'')"
    and "grokRequest b = Inl e \<Longrightarrow> callProvider ''grok'' b = Inl e"
    and "azureRequest b = Inl e \<Longrightarrow> callProvider ''azure'' b = Inl e"
    and "localRequest b = Inl e \<Longrightarrow> callProvider ''local'' b = Inl e"
  by (simp_all add: callProvider_def callOpenAI_def callGoogle_def callGrok_def callAzure_def
      callLocal_def)



subsection \<open>Evaluating the rounding to binary64\<close>

lemma floor_log2_eq:
  assumes "2 powi k \<le> x" "x < 2 powi (k + 1)"
  shows "\<lfloor>log 2 x\<rfloor> = k"
proof -
  have p: "0 < x" using assms(1) by (smt (verit) zero_less_power_int)
  have "real_of_int k \<le> log 2 x"
    using assms(1) p by (simp add: le_log_iff powr_real_of_int')
  moreover have "log 2 x < real_of_int (k + 1)"
  proof -
    have "(2::real) powr real_of_int (k + 1) = 2 powi (k + 1)"
      by (rule powr_real_of_int') simp_all
    with assms(2) have "x < 2 powr real_of_int (k + 1)" by simp
    with p show ?thesis by (simp add: log_less_iff)
  qed
  ultimately show ?thesis by linarith
qed

lemma roundHalfEven_down:
  "of_int f \<le> y \<Longrightarrow> y < of_int f + 1 / 2 \<Longrightarrow> roundHalfEven y = f"
proof -
  assume a: "of_int f \<le> y" "y < of_int f + 1 / 2"
  then have "\<lfloor>y\<rfloor> = f" by linarith
  with a show ?thesis by (simp add: roundHalfEven_def Let_def)
qed

lemma roundHalfEven_up:
  "of_int f + 1 / 2 < y \<Longrightarrow> y < of_int f + 1 \<Longrightarrow> roundHalfEven y = f + 1"
proof -
  assume a: "of_int f + 1 / 2 < y" "y < of_int f + 1"
  then have "\<lfloor>y\<rfloor> = f" by linarith
  with a show ?thesis by (simp add: roundHalfEven_def Let_def)
qed

lemma round64_eval:
  assumes "2 powi k \<le> x" "x < 2 powi (k + 1)" "- 1022 \<le> k"
    and "roundHalfEven (x / 2 powi (k - 52)) = n"
  shows "round64 x = of_int n * 2 powi (k - 52)"
proof -
  have p: "0 < x" using assms(1) by (smt (verit) zero_less_power_int)
  then have "\<lfloor>log 2 \<bar>x\<bar>\<rfloor> = k" using floor_log2_eq [OF assms(1,2)] by simp
  with p assms(3,4) show ?thesis by (simp add: round64_def Let_def max_def)
qed

lemma round64_1: "round64 1 = 1"
proof -
  have "roundHalfEven (1 / 2 powi (0 - 52)) = 2 ^ 52"
    by (rule roundHalfEven_down) (simp_all add: power_int_minus)
  from round64_eval [of 0 1, OF _ _ _ this] show ?thesis
    by (simp add: power_int_minus)
qed

lemma round64_2: "round64 2 = 2"
proof -
  have "roundHalfEven (2 / 2 powi (1 - 52)) = 2 ^ 52"
    by (rule roundHalfEven_down) (simp_all add: power_int_minus)
  from round64_eval [of 1 2, OF _ _ _ this] show ?thesis
    by (simp add: power_int_minus)
qed

lemma sqrt2_lower: "6369051672525772 + 1 / 2 < sqrt 2 * 2 ^ 52"
proof -
  have "((6369051672525772 + 1 / 2) / 2 ^ 52)\<^sup>2 < (2::real)" by (simp add: power2_eq_square)
  then have "(6369051672525772 + 1 / 2) / 2 ^ 52 < sqrt 2" by (rule real_less_rsqrt)
  then show ?thesis by (simp add: field_simps)
qed

lemma sqrt2_upper: "sqrt 2 * 2 ^ 52 < 6369051672525773"
proof -
  have "(2::real) < (6369051672525773 / 2 ^ 52)\<^sup>2" by (simp add: power2_eq_square)
  then have "sqrt 2 < 6369051672525773 / 2 ^ 52" by (intro real_less_lsqrt) simp_all
  then show ?thesis by (simp add: field_simps)
qed

lemma round64_sqrt2: "round64 (sqrt 2) = 6369051672525773 / 2 ^ 52"
proof -
  have "roundHalfEven (sqrt 2 / 2 powi (0 - 52)) = 6369051672525772 + 1"
    using sqrt2_lower sqrt2_upper by (intro roundHalfEven_up) (simp_all add: power_int_minus)
  moreover have "1 \<le> sqrt 2" by simp
  moreover have "sqrt 2 < 2" by (intro real_less_lsqrt) simp_all
  ultimately show ?thesis using round64_eval [of 0 "sqrt 2" "6369051672525772 + 1"]
    by (simp add: power_int_minus)
qed

lemma round64_square:
  "round64 (6369051672525773 / 2 ^ 52 * (6369051672525773 / 2 ^ 52)) = 4503599627370497 / 2 ^ 51"
proof -
  let ?x = "6369051672525773 / 2 ^ 52 * (6369051672525773 / 2 ^ 52) :: real"
  have "roundHalfEven (?x / 2 powi (1 - 52)) = 4503599627370496 + 1"
    by (intro roundHalfEven_up) (simp_all add: power_int_minus)
  then show ?thesis using round64_eval [of 1 ?x "4503599627370496 + 1"]
    by (simp add: power_int_minus)
qed

lemma round64_quotient:
  "round64 (2 / (4503599627370497 / 2 ^ 51)) = 9007199254740990 / 2 ^ 53"
proof -
  let ?x = "2 / (4503599627370497 / 2 ^ 51) :: real"
  have "roundHalfEven (?x / 2 powi (- 1 - 52)) = 9007199254740990"
    by (intro roundHalfEven_down) (simp_all add: power_int_minus)
  then show ?thesis using round64_eval [of "- 1" ?x "9007199254740990"]
    by (simp add: power_int_minus)
qed

subsection \<open>The rounding to binary64 is monotone\<close>

lemma roundHalfEven_bounds: "\<lfloor>y\<rfloor> \<le> roundHalfEven y \<and> roundHalfEven y \<le> \<lfloor>y\<rfloor> + 1"
  by (simp add: roundHalfEven_def Let_def)

lemma roundHalfEven_mono:
  assumes "y \<le> z"
  shows "roundHalfEven y \<le> roundHalfEven z"
proof (cases "\<lfloor>y\<rfloor> = \<lfloor>z\<rfloor>")
  case True
  with assms show ?thesis by (auto simp: roundHalfEven_def Let_def)
next
  case False
  with assms have "\<lfloor>y\<rfloor> + 1 \<le> \<lfloor>z\<rfloor>" using floor_mono [of y z] by linarith
  with roundHalfEven_bounds [of y] roundHalfEven_bounds [of z] show ?thesis by linarith
qed

lemma roundHalfEven_of_int: "roundHalfEven (of_int n) = n"
  by (simp add: roundHalfEven_def Let_def)

lemma roundHalfEven_0: "roundHalfEven 0 = 0"
  by (simp add: roundHalfEven_def)

lemma roundHalfEven_minus: "roundHalfEven (- y) = - roundHalfEven y"
proof (cases "y \<in> \<int>")
  case True
  then obtain n where "y = of_int n" by (auto elim: Ints_cases)
  then show ?thesis using roundHalfEven_of_int [of n] roundHalfEven_of_int [of "- n"] by simp
next
  case False
  then have "y \<noteq> of_int \<lfloor>y\<rfloor>" by (metis Ints_of_int)
  then have f: "\<lfloor>- y\<rfloor> = - \<lfloor>y\<rfloor> - 1"
    by (simp add: floor_minus ceiling_altdef)
  show ?thesis
    unfolding roundHalfEven_def Let_def f by auto
qed

lemma round64_minus: "round64 (- x) = - round64 x"
  by (simp add: round64_def Let_def roundHalfEven_minus)

lemma round64_0: "round64 0 = 0"
  by (simp add: round64_def)

text \<open>The exponent of the binade of a positive number, not below that of the subnormals.\<close>

lemma binade:
  assumes "0 < x"
  defines "k \<equiv> max \<lfloor>log 2 x\<rfloor> (- 1022)"
  shows "x < 2 powi (k + 1)" and "- 1022 < k \<Longrightarrow> 2 powi k \<le> x"
proof -
  let ?l = "\<lfloor>log 2 x\<rfloor>"
  have "log 2 x < of_int ?l + 1" by linarith
  moreover have "log 2 x < of_int ?l + 1 \<longleftrightarrow> x < 2 powr (of_int ?l + 1)"
    using assms(1) by (intro log_less_iff) simp_all
  ultimately have "x < 2 powr (of_int ?l + 1)" by blast
  also have "\<dots> = 2 powi (?l + 1)" using powr_real_of_int' [of 2 "?l + 1"] by simp
  also have "\<dots> \<le> 2 powi (k + 1)" by (intro power_int_increasing) (simp_all add: k_def)
  finally show "x < 2 powi (k + 1)" .
  assume "- 1022 < k"
  then have kl: "k = ?l" by (simp add: k_def max_def split: if_splits)
  have "of_int ?l \<le> log 2 x" by linarith
  moreover have "of_int ?l \<le> log 2 x \<longleftrightarrow> 2 powr of_int ?l \<le> x"
    using assms(1) by (intro le_log_iff) simp_all
  ultimately have "2 powr of_int ?l \<le> x" by blast
  moreover have "2 powr of_int ?l = (2::real) powi ?l" by (rule powr_real_of_int') simp_all
  ultimately show "2 powi k \<le> x" by (simp add: kl)
qed

lemma round64_pos_form:
  assumes "0 < x"
  shows "round64 x = of_int (roundHalfEven (x / 2 powi (max \<lfloor>log 2 x\<rfloor> (- 1022) - 52)))
                       * 2 powi (max \<lfloor>log 2 x\<rfloor> (- 1022) - 52)"
  using assms by (simp add: round64_def Let_def)

lemma round64_pos_bounds:
  assumes "0 < x"
  defines "k \<equiv> max \<lfloor>log 2 x\<rfloor> (- 1022)"
  shows "0 \<le> round64 x" and "round64 x \<le> 2 powi (k + 1)"
    and "- 1022 < k \<Longrightarrow> 2 powi k \<le> round64 x"
proof -
  let ?e = "k - 52"
  have p: "(0::real) < 2 powi ?e" by simp
  have r: "round64 x = of_int (roundHalfEven (x / 2 powi ?e)) * 2 powi ?e"
    using round64_pos_form [OF assms(1)] by (simp add: k_def)
  have "0 \<le> x / 2 powi ?e" using assms(1) by simp
  then have "roundHalfEven 0 \<le> roundHalfEven (x / 2 powi ?e)"
    by (rule roundHalfEven_mono)
  then have "0 \<le> roundHalfEven (x / 2 powi ?e)" by (simp add: roundHalfEven_0)
  then show "0 \<le> round64 x" by (simp add: r)
  have s: "(2::real) powi (k + 1) = 2 ^ 53 * 2 powi ?e"
  proof -
    have "(2::real) powi (k + 1) = 2 powi (53 + ?e)"
      by (rule arg_cong [where f = "\<lambda>n. 2 powi n"]) simp
    also have "\<dots> = 2 powi 53 * 2 powi ?e" by (rule power_int_add) simp
    finally show ?thesis by simp
  qed
  have "x < 2 powi (k + 1)" using binade(1) [OF assms(1)] by (simp only: k_def)
  then have "x < 2 ^ 53 * 2 powi ?e" by (simp only: s)
  then have "x / 2 powi ?e < 2 ^ 53" using p by (simp only: pos_divide_less_eq)
  then have "x / 2 powi ?e \<le> of_int (2 ^ 53)" by simp
  then have "roundHalfEven (x / 2 powi ?e) \<le> roundHalfEven (of_int (2 ^ 53))"
    by (rule roundHalfEven_mono)
  then have "real_of_int (roundHalfEven (x / 2 powi ?e)) \<le> 2 ^ 53"
    by (simp only: roundHalfEven_of_int) (metis of_int_le_iff of_int_numeral of_int_power)
  then have "real_of_int (roundHalfEven (x / 2 powi ?e)) * 2 powi ?e \<le> 2 ^ 53 * 2 powi ?e"
    using p by (simp only: mult_le_cancel_right_pos)
  then show "round64 x \<le> 2 powi (k + 1)" by (simp only: r s)
  assume n: "- 1022 < k"
  have t: "(2::real) powi k = 2 ^ 52 * 2 powi ?e"
  proof -
    have "(2::real) powi k = 2 powi (52 + ?e)"
      by (rule arg_cong [where f = "\<lambda>n. 2 powi n"]) simp
    also have "\<dots> = 2 powi 52 * 2 powi ?e" by (rule power_int_add) simp
    finally show ?thesis by simp
  qed
  have "2 powi k \<le> x" using binade(2) [OF assms(1)] n by (simp only: k_def)
  then have "2 ^ 52 * 2 powi ?e \<le> x" by (simp only: t [symmetric])
  then have "2 ^ 52 \<le> x / 2 powi ?e" using p by (simp only: pos_le_divide_eq)
  then have "of_int (2 ^ 52) \<le> x / 2 powi ?e" by simp
  then have "roundHalfEven (of_int (2 ^ 52)) \<le> roundHalfEven (x / 2 powi ?e)"
    by (rule roundHalfEven_mono)
  then have "2 ^ 52 \<le> real_of_int (roundHalfEven (x / 2 powi ?e))"
    by (simp only: roundHalfEven_of_int) (metis of_int_le_iff of_int_numeral of_int_power)
  then have "2 ^ 52 * 2 powi ?e \<le> real_of_int (roundHalfEven (x / 2 powi ?e)) * 2 powi ?e"
    using p by (simp only: mult_le_cancel_right_pos)
  then show "2 powi k \<le> round64 x" by (simp only: r t)
qed

lemma round64_mono_pos:
  assumes "0 < x" "x \<le> y"
  shows "round64 x \<le> round64 y"
proof -
  define kx where "kx = max \<lfloor>log 2 x\<rfloor> (- 1022)"
  define ky where "ky = max \<lfloor>log 2 y\<rfloor> (- 1022)"
  have y: "0 < y" using assms by linarith
  have "log 2 x \<le> log 2 y" using assms by simp
  then have "\<lfloor>log 2 x\<rfloor> \<le> \<lfloor>log 2 y\<rfloor>" by (rule floor_mono)
  then have k: "kx \<le> ky" by (simp add: kx_def ky_def)
  show ?thesis
  proof (cases "kx = ky")
    case True
    have p: "(0::real) < 2 powi (kx - 52)" by simp
    have "x / 2 powi (kx - 52) \<le> y / 2 powi (kx - 52)"
      using assms(2) p by (intro divide_right_mono) simp_all
    then have "roundHalfEven (x / 2 powi (kx - 52)) \<le> roundHalfEven (y / 2 powi (kx - 52))"
      by (rule roundHalfEven_mono)
    then have "real_of_int (roundHalfEven (x / 2 powi (kx - 52))) * 2 powi (kx - 52)
               \<le> real_of_int (roundHalfEven (y / 2 powi (kx - 52))) * 2 powi (kx - 52)"
      using p by (simp only: mult_le_cancel_right_pos of_int_le_iff)
    moreover have "round64 x = real_of_int (roundHalfEven (x / 2 powi (kx - 52))) * 2 powi (kx - 52)"
      using round64_pos_form [OF assms(1)] by (simp only: kx_def)
    moreover have "round64 y = real_of_int (roundHalfEven (y / 2 powi (kx - 52))) * 2 powi (kx - 52)"
      using round64_pos_form [OF y] by (simp only: True ky_def)
    ultimately show ?thesis by (simp only:)
  next
    case False
    with k have l: "kx + 1 \<le> ky" by linarith
    have "- 1022 \<le> kx" by (simp add: kx_def)
    with l have n: "- 1022 < ky" by linarith
    have "round64 x \<le> 2 powi (kx + 1)"
      using round64_pos_bounds(2) [OF assms(1)] by (simp only: kx_def)
    also have "\<dots> \<le> 2 powi ky" using l by (intro power_int_increasing) simp_all
    also have "\<dots> \<le> round64 y"
      using round64_pos_bounds(3) [OF y] n by (simp only: ky_def)
    finally show ?thesis .
  qed
qed

lemma round64_nonneg: "0 \<le> x \<Longrightarrow> 0 \<le> round64 x"
  using round64_pos_bounds(1) [of x] round64_0 by (cases "x = 0") simp_all

lemma round64_mono: "x \<le> y \<Longrightarrow> round64 x \<le> round64 y"
proof -
  assume xy: "x \<le> y"
  consider "0 < x" | "x \<le> 0" "0 \<le> y" | "y < 0" by linarith
  then show ?thesis
  proof cases
    case 1
    then show ?thesis using xy by (rule round64_mono_pos)
  next
    case 2
    from 2(1) have "0 \<le> round64 (- x)" by (intro round64_nonneg) simp
    then have "round64 x \<le> 0" by (simp add: round64_minus)
    also have "0 \<le> round64 y" using 2(2) by (rule round64_nonneg)
    finally show ?thesis .
  next
    case 3
    then have "0 < - y" "- y \<le> - x" using xy by simp_all
    then have "round64 (- y) \<le> round64 (- x)" by (rule round64_mono_pos)
    then show ?thesis by (simp add: round64_minus)
  qed
qed



subsection \<open>Doubles\<close>

lemma round64_dyadic_pos:
  assumes "0 < n" "n < 2 ^ 53" "- 1074 \<le> e"
  shows "round64 (of_int n * 2 powi e) = of_int n * 2 powi e"
proof -
  define x :: real where "x = of_int n * 2 powi e"
  define k where "k = max \<lfloor>log 2 x\<rfloor> (- 1022)"
  have x: "0 < x" using assms(1) by (simp add: x_def)
  have E: "k - 52 \<le> e"
  proof (rule ccontr)
    assume "\<not> k - 52 \<le> e"
    then have l: "e + 53 \<le> k" by linarith
    with assms(3) have "- 1022 < k" by linarith
    then have "2 powi k \<le> x" using binade(2) [OF x] by (simp only: k_def)
    moreover have "x < 2 powi (e + 53)"
    proof -
      have "real_of_int n < 2 ^ 53" using assms(2) by (metis of_int_less_iff of_int_numeral of_int_power)
      then have "x < 2 ^ 53 * 2 powi e" by (simp add: x_def)
      also have "\<dots> = 2 powi (e + 53)" by (simp add: power_int_add)
      finally show ?thesis .
    qed
    moreover have "(2::real) powi (e + 53) \<le> 2 powi k" using l by (intro power_int_increasing) simp_all
    ultimately show False by linarith
  qed
  then obtain d :: nat where d: "e = k - 52 + int d"
    by (metis add.commute diff_add_cancel nat_le_iff zero_le_imp_eq_int diff_ge_0_iff_ge)
  have "x / 2 powi (k - 52) = of_int n * 2 ^ d"
  proof -
    have "(2::real) powi e = 2 powi (k - 52) * 2 powi (int d)"
      unfolding d by (rule power_int_add) simp
    then show ?thesis by (simp add: x_def)
  qed
  also have "\<dots> = of_int (n * 2 ^ d)" by simp
  finally have "roundHalfEven (x / 2 powi (k - 52)) = n * 2 ^ d"
    by (simp only: roundHalfEven_of_int)
  moreover have "round64 x = of_int (roundHalfEven (x / 2 powi (k - 52))) * 2 powi (k - 52)"
    using round64_pos_form [OF x] by (simp only: k_def)
  ultimately have "round64 x = of_int (n * 2 ^ d) * 2 powi (k - 52)" by simp
  also have "\<dots> = of_int n * (2 powi (k - 52) * 2 powi (int d))" by simp
  also have "\<dots> = of_int n * 2 powi e"
    unfolding d by (subst power_int_add) simp_all
  finally show ?thesis by (simp only: x_def)
qed

lemma round64_dyadic:
  assumes "\<bar>n\<bar> < 2 ^ 53" "- 1074 \<le> e"
  shows "round64 (of_int n * 2 powi e) = of_int n * 2 powi e"
proof -
  consider "n = 0" | "0 < n" | "n < 0" by linarith
  then show ?thesis
  proof cases
    case 1
    then show ?thesis by (simp add: round64_def)
  next
    case 2
    with assms show ?thesis by (intro round64_dyadic_pos) simp_all
  next
    case 3
    with assms have "round64 (of_int (- n) * 2 powi e) = of_int (- n) * 2 powi e"
      by (intro round64_dyadic_pos) simp_all
    then have "round64 (- (of_int n * 2 powi e)) = - (of_int n * 2 powi e)" by simp
    then show ?thesis by (simp only: round64_minus neg_equal_iff_equal)
  qed
qed

lemma double_Fin: "round64 x = r \<Longrightarrow> r \<noteq> 0 \<Longrightarrow> \<bar>r\<bar> < 2 ^ 1024 \<Longrightarrow> double x = Fin r"
  by (simp add: double_def Let_def)

lemma double_0: "double 0 = Fin 0"
  by (simp add: double_def round64_0 signedZero_def)

lemma double_1: "double 1 = Fin 1"
  by (rule double_Fin [OF round64_1]) simp_all

lemma double_2: "double 2 = Fin 2"
  by (rule double_Fin [OF round64_2]) simp_all

lemma round64_pow2: "round64 (2 ^ n) = 2 ^ n"
  using round64_dyadic [of 1 "int n"] by (simp add: power_int_of_nat)

lemma double_overflow:
  assumes "2 ^ 1024 \<le> x"
  shows "double x = PosInf"
proof -
  have "round64 (2 ^ 1024) \<le> round64 x" using assms by (rule round64_mono)
  then have "2 ^ 1024 \<le> round64 x" by (simp only: round64_pow2)
  moreover have "\<not> x < 0" using assms by (smt (verit) zero_less_power)
  ultimately show ?thesis by (simp add: double_def Let_def signedInf_def)
qed

lemma round64_underflow:
  assumes "0 < x" "x < 1 / 2 ^ 1075"
  shows "round64 x = 0"
proof -
  define k where "k = max \<lfloor>log 2 x\<rfloor> (- 1022)"
  have "\<not> - 1022 < k"
  proof
    assume n: "- 1022 < k"
    then have "2 powi k \<le> x" using binade(2) [OF assms(1)] by (simp only: k_def)
    moreover have "(2::real) powi (- 1022) \<le> 2 powi k" using n by (intro power_int_increasing) simp_all
    moreover have "(1::real) / 2 ^ 1075 < 2 powi (- 1022)" by (simp add: power_int_minus field_simps)
    ultimately show False using assms(2) by linarith
  qed
  then have k: "k = - 1022" by (simp add: k_def max_def split: if_splits)
  have "roundHalfEven (x / 2 powi (k - 52)) = 0"
  proof (rule roundHalfEven_down)
    show "real_of_int 0 \<le> x / 2 powi (k - 52)" using assms(1) by simp
    have "x / 2 powi (k - 52) = x * 2 ^ 1074" by (simp add: k power_int_minus field_simps)
    also have "\<dots> < 1 / 2 ^ 1075 * 2 ^ 1074" using assms(2) by (intro mult_strict_right_mono) simp_all
    also have "\<dots> = 1 / 2" by simp
    finally show "x / 2 powi (k - 52) < real_of_int 0 + 1 / 2" by simp
  qed
  moreover have "round64 x = of_int (roundHalfEven (x / 2 powi (k - 52))) * 2 powi (k - 52)"
    using round64_pos_form [OF assms(1)] by (simp only: k_def)
  ultimately show ?thesis by simp
qed

lemma double_underflow: "0 < x \<Longrightarrow> x < 1 / 2 ^ 1075 \<Longrightarrow> double x = Fin 0"
  by (simp add: double_def Let_def round64_underflow signedZero_def)




lemma onGrid_simps [simp]:
  "onGrid (Fin 0)" "onGrid NegZero" "onGrid PosInf" "onGrid NegInf" "onGrid NaN"
  by (auto simp: onGrid_def intro: exI [of _ 0])














subsection \<open>The hash embedding\<close>



























subsection \<open>Cosine similarity\<close>

lemma numMul_commute: "numMul rnd a b = numMul rnd b a"
  by (cases "negative a"; cases "negative b") (auto simp: numMul_def mult.commute)

lemma cosineSums_swap:
  "cosineSums rnd (zip b a) (d, nb, na)
     = (case cosineSums rnd (zip a b) (d, na, nb) of (d', na', nb') \<Rightarrow> (d', nb', na'))"
proof (induction a arbitrary: b d na nb)
  case Nil
  then show ?case by simp
next
  case (Cons x a)
  show ?case
  proof (cases b)
    case Nil
    then show ?thesis by simp
  next
    case (Cons y b')
    then show ?thesis using Cons.IH [of b'] by (simp add: numMul_commute [of rnd y x])
  qed
qed

lemma cosineSimilarity_sym: "cosineSimilarity rnd a b = cosineSimilarity rnd b a"
proof (cases "length a = length b")
  case False
  then show ?thesis by (auto simp: cosineSimilarity_def)
next
  case True
  obtain d na nb where s: "cosineSums rnd (zip a b) (Fin 0, Fin 0, Fin 0) = (d, na, nb)"
    by (cases "cosineSums rnd (zip a b) (Fin 0, Fin 0, Fin 0)") auto
  then have "cosineSums rnd (zip b a) (Fin 0, Fin 0, Fin 0) = (d, nb, na)"
    using cosineSums_swap [of rnd b a "Fin 0" "Fin 0" "Fin 0"] by simp
  with s True show ?thesis
    by (auto simp: cosineSimilarity_def numMul_commute [of rnd "numSqrt rnd na"])
qed

lemma numMul_zero_self: "isZero x \<Longrightarrow> numMul rnd x x = Fin 0"
  by (auto simp: numMul_def isZero_def isInfinite_def signedZero_def)

lemma numAdd_zero_zero: "numAdd rnd (Fin 0) (Fin 0) = Fin 0"
  by (simp add: numAdd_def isZero_def isInfinite_def)

lemma cosineSums_zero_left:
  "list_all isZero a \<Longrightarrow> fst (snd (cosineSums rnd (zip a b) (d, Fin 0, nb))) = Fin 0"
proof (induction a arbitrary: b d nb)
  case Nil
  then show ?case by simp
next
  case (Cons x a)
  show ?case
  proof (cases b)
    case Nil
    then show ?thesis by simp
  next
    case (Cons y b')
    from Cons.prems have x: "isZero x" and a: "list_all isZero a" by simp_all
    show ?thesis
      using Cons.IH [OF a] by (simp add: Cons numMul_zero_self [OF x] numAdd_zero_zero)
  qed
qed

lemma cosineSimilarity_zero_left:
  assumes "list_all isZero a"
  shows "cosineSimilarity rnd a b = Fin 0"
proof -
  have "fst (snd (cosineSums rnd (zip a b) (Fin 0, Fin 0, Fin 0))) = Fin 0"
    using assms by (rule cosineSums_zero_left)
  then show ?thesis
    by (auto simp: cosineSimilarity_def strictEquals_def split: prod.splits)
qed

lemma numMul_Fin_self: "isFinite x \<Longrightarrow> numMul Fin x x = Fin (valueOf x * valueOf x)"
  by (cases x) (auto simp: numMul_def isZero_def isInfinite_def isFinite_def signedZero_def)

lemma numAdd_Fin: "numAdd Fin (Fin n) (Fin s) = Fin (n + s)"
  by (auto simp: numAdd_def isZero_def isInfinite_def)

lemma cosineSums_exact_self:
  "list_all isFinite a \<Longrightarrow>
   cosineSums Fin (zip a a) (Fin n, Fin n, Fin n)
     = (Fin (n + (\<Sum>x\<leftarrow>a. valueOf x * valueOf x)),
        Fin (n + (\<Sum>x\<leftarrow>a. valueOf x * valueOf x)),
        Fin (n + (\<Sum>x\<leftarrow>a. valueOf x * valueOf x)))"
proof (induction a arbitrary: n)
  case Nil
  then show ?case by simp
next
  case (Cons x a)
  from Cons.prems have x: "isFinite x" and a: "list_all isFinite a" by simp_all
  show ?case
    using Cons.IH [OF a, of "n + valueOf x * valueOf x"]
    by (simp add: numMul_Fin_self [OF x] numAdd_Fin add.assoc)
qed

lemma sum_squares_nonneg: "0 \<le> (\<Sum>x\<leftarrow>a. valueOf x * valueOf x)"
  by (induction a) auto

lemma sum_squares_pos:
  "list_all isFinite a \<Longrightarrow> list_ex (\<lambda>x. \<not> isZero x) a \<Longrightarrow> 0 < (\<Sum>x\<leftarrow>a. valueOf x * valueOf x)"
proof (induction a)
  case Nil
  then show ?case by simp
next
  case (Cons y a)
  from Cons.prems(1) have y: "isFinite y" and a: "list_all isFinite a" by simp_all
  show ?case
  proof (cases "isZero y")
    case True
    with Cons.prems(2) have "list_ex (\<lambda>x. \<not> isZero x) a" by simp
    with Cons.IH [OF a] have "0 < (\<Sum>x\<leftarrow>a. valueOf x * valueOf x)" by simp
    moreover have "0 \<le> valueOf y * valueOf y" by simp
    ultimately show ?thesis by (simp add: add_nonneg_pos)
  next
    case False
    with y have "valueOf y \<noteq> 0" by (cases y) (auto simp: isZero_def isFinite_def)
    then have "0 < valueOf y * valueOf y" using not_real_square_gt_zero [of "valueOf y"] by blast
    with sum_squares_nonneg [of a] show ?thesis by simp
  qed
qed

lemma cosineSimilarity_exact_self:
  assumes "list_all isFinite a" "list_ex (\<lambda>x. \<not> isZero x) a"
  shows "cosineSimilarity Fin a a = Fin 1"
proof -
  define n where "n = (\<Sum>x\<leftarrow>a. valueOf x * valueOf x)"
  have s: "cosineSums Fin (zip a a) (Fin 0, Fin 0, Fin 0) = (Fin n, Fin n, Fin n)"
    using cosineSums_exact_self [OF assms(1), of 0] by (simp add: n_def)
  have p: "0 < n" unfolding n_def using assms by (rule sum_squares_pos)
  then have q: "0 < sqrt n" by simp
  have "numMul Fin (numSqrt Fin (Fin n)) (numSqrt Fin (Fin n)) = Fin n"
    using p q by (simp add: numMul_def isZero_def isInfinite_def)
  moreover have "numDiv Fin (Fin n) (Fin n) = Fin 1"
    using p by (simp add: numDiv_def isZero_def isInfinite_def)
  ultimately show ?thesis
    using p by (simp add: cosineSimilarity_def s strictEquals_def isZero_def)
qed

lemma strictEquals_same: "strictEquals v v = (v \<noteq> NaN)"
  by (simp add: strictEquals_def)

lemma pow2_512_sq: "(2::real) ^ 512 * 2 ^ 512 = 2 ^ 1024"
proof -
  have "(2::real) ^ (512 + 512) = 2 ^ 512 * 2 ^ 512" by (rule power_add)
  then show ?thesis by simp
qed

lemma pow2_538_sq: "(1::real) / 2 ^ 538 * (1 / 2 ^ 538) = 1 / 2 ^ 1076"
proof -
  have "(2::real) ^ (538 + 538) = 2 ^ 538 * 2 ^ 538" by (rule power_add)
  then show ?thesis by simp
qed

lemma numMul_overflow:
  assumes "2 ^ 512 \<le> x"
  shows "numMul double (Fin x) (Fin x) = PosInf"
proof -
  have p: "(0::real) < 2 ^ 512" by simp
  with assms have x: "0 < x" by linarith
  have "(2::real) ^ 512 * 2 ^ 512 \<le> x * x" using assms by (intro mult_mono) simp_all
  then have "2 ^ 1024 \<le> x * x" by (simp only: pow2_512_sq)
  then have "double (x * x) = PosInf" by (rule double_overflow)
  with x show ?thesis
    by (simp add: numMul_def isZero_def isInfinite_def)
qed

lemma cosine_overflow_at:
  assumes "2 ^ 512 \<le> x"
  shows "cosineSimilarity double [Fin x] [Fin x] = NaN"
proof -
  have a: "numAdd double (Fin 0) PosInf = PosInf" by (simp add: numAdd_def isInfinite_def)
  have e: "\<not> strictEquals PosInf (Fin 0)" by (simp add: strictEquals_def isZero_def)
  have m: "numMul double PosInf PosInf = PosInf"
    by (simp add: numMul_def isInfinite_def isZero_def signedInf_def)
  have d: "numDiv double PosInf PosInf = NaN" by (simp add: numDiv_def isInfinite_def)
  show ?thesis
    unfolding cosineSimilarity_def
    by (simp add: numMul_overflow [OF assms] a e m d del: power_numeral)
qed

lemma numMul_underflow:
  assumes "0 < x" "x \<le> 1 / 2 ^ 538"
  shows "numMul double (Fin x) (Fin x) = Fin 0"
proof -
  have "x * x \<le> 1 / 2 ^ 538 * (1 / 2 ^ 538)" using assms by (intro mult_mono) simp_all
  also have "\<dots> = 1 / 2 ^ 1076" by (rule pow2_538_sq)
  also have "\<dots> < 1 / 2 ^ 1075"
    by (intro divide_strict_left_mono power_strict_increasing) simp_all
  finally have "x * x < 1 / 2 ^ 1075" .
  moreover have "0 < x * x" using assms(1) by simp
  ultimately have "double (x * x) = Fin 0" by (intro double_underflow)
  with assms(1) show ?thesis
    by (simp add: numMul_def isZero_def isInfinite_def)
qed

lemma cosine_underflow_at:
  assumes "0 < x" "x \<le> 1 / 2 ^ 538"
  shows "cosineSimilarity double [Fin x] [Fin x] = Fin 0"
  unfolding cosineSimilarity_def
  by (simp add: numMul_underflow [OF assms] numAdd_zero_zero strictEquals_def)

lemma cosine_overflow:
  "cosineSimilarity double [Fin (2 ^ 600)] [Fin (2 ^ 600)] = NaN"
  by (rule cosine_overflow_at) (rule power_increasing, simp_all)

lemma cosine_underflow:
  "cosineSimilarity double [Fin (1 / 2 ^ 600)] [Fin (1 / 2 ^ 600)] = Fin 0"
proof (rule cosine_underflow_at)
  show "(0::real) < 1 / 2 ^ 600" by simp
  have "(2::real) ^ 538 \<le> 2 ^ 600" by (rule power_increasing) simp_all
  then show "(1::real) / 2 ^ 600 \<le> 1 / 2 ^ 538" by (intro divide_left_mono) simp_all
qed

lemma cosine_double_11:
  "cosineSimilarity double [Fin 1, Fin 1] [Fin 1, Fin 1] = Fin (9007199254740990 / 2 ^ 53)"
proof -
  have m1: "numMul double (Fin 1) (Fin 1) = Fin 1"
    by (simp add: numMul_def isZero_def isInfinite_def double_1)
  have a1: "numAdd double (Fin 0) (Fin 1) = Fin 1"
    by (simp add: numAdd_def isZero_def isInfinite_def double_1)
  have a2: "numAdd double (Fin 1) (Fin 1) = Fin 2"
    by (simp add: numAdd_def isZero_def isInfinite_def double_2)
  have r: "numSqrt double (Fin 2) = Fin (6369051672525773 / 2 ^ 52)"
    by (simp add: double_Fin [OF round64_sqrt2])
  have "double (6369051672525773 / 2 ^ 52 * (6369051672525773 / 2 ^ 52))
          = Fin (4503599627370497 / 2 ^ 51)"
    by (rule double_Fin [OF round64_square]) simp_all
  then have m: "numMul double (Fin (6369051672525773 / 2 ^ 52)) (Fin (6369051672525773 / 2 ^ 52))
          = Fin (4503599627370497 / 2 ^ 51)"
    by (simp add: numMul_def isZero_def isInfinite_def)
  have "double (2 / (4503599627370497 / 2 ^ 51)) = Fin (9007199254740990 / 2 ^ 53)"
    by (rule double_Fin [OF round64_quotient]) simp_all
  then have d: "numDiv double (Fin 2) (Fin (4503599627370497 / 2 ^ 51))
          = Fin (9007199254740990 / 2 ^ 53)"
    by (simp add: numDiv_def isZero_def isInfinite_def)
  have e: "\<not> strictEquals (Fin 2) (Fin 0)" by (simp add: strictEquals_def isZero_def)
  have "cosineSimilarity double [Fin 1, Fin 1] [Fin 1, Fin 1]
          = numDiv double (Fin 2) (numMul double (numSqrt double (Fin 2)) (numSqrt double (Fin 2)))"
    by (simp add: cosineSimilarity_def m1 a1 a2 e del: numSqrt.simps)
  also have "\<dots> = numDiv double (Fin 2)
      (numMul double (Fin (6369051672525773 / 2 ^ 52)) (Fin (6369051672525773 / 2 ^ 52)))"
    by (simp only: r)
  also have "\<dots> = numDiv double (Fin 2) (Fin (4503599627370497 / 2 ^ 51))"
    by (simp only: m)
  also have "\<dots> = Fin (9007199254740990 / 2 ^ 53)"
    by (rule d)
  finally show ?thesis .
qed

text \<open>
  In binary64 the product of the two rounded square roots need not be the squared norm:
  for \<open>[1, 1]\<close> the squared norm is 2, the product is \<open>2 + 1 / 2 ^ 51\<close>, and the similarity
  of the vector with itself is below 1 by \<open>1 / 2 ^ 52\<close>.
\<close>

theorem cosineSimilarity_self_counterexample:
  "cosineSimilarity double [Fin 1, Fin 1] [Fin 1, Fin 1] = Fin (1 - 1 / 2 ^ 52)
   \<and> \<not> strictEquals (cosineSimilarity double [Fin 1, Fin 1] [Fin 1, Fin 1]) (Fin 1)"
  by (simp add: cosine_double_11 strictEquals_def isZero_def)


text \<open>
  C5, as the code has it. The two orders of the arguments give the same value; when that
  value is \<^verbatim>\<open>NaN\<close> the comparison \<^verbatim>\<open>===\<close> of the two results is false, as is every comparison
  with \<^verbatim>\<open>NaN\<close>. The similarity is 0 for vectors of different lengths and when one of the
  two vectors has zeros only. The similarity of a vector of finite numbers, not all zero,
  with itself is 1 in exact arithmetic. On the platform it need not be: it is 0 for the
  vector \<open>[1 / 2 ^ 600]\<close>, whose square underflows, and \<^verbatim>\<open>NaN\<close> for \<open>[2 ^ 600]\<close>, whose square
  overflows.
\<close>

theorem cosineSimilarity_properties:
  "cosineSimilarity rnd a b = cosineSimilarity rnd b a
   \<and> strictEquals (cosineSimilarity rnd a b) (cosineSimilarity rnd b a)
       = (cosineSimilarity rnd a b \<noteq> NaN)
   \<and> (length a \<noteq> length b \<longrightarrow> cosineSimilarity rnd a b = Fin 0)
   \<and> (list_all isZero a \<or> list_all isZero b \<longrightarrow> cosineSimilarity rnd a b = Fin 0)
   \<and> (list_all isFinite a \<longrightarrow> list_ex (\<lambda>x. \<not> isZero x) a \<longrightarrow> cosineSimilarity Fin a a = Fin 1)
   \<and> cosineSimilarity double [Fin (1 / 2 ^ 600)] [Fin (1 / 2 ^ 600)] = Fin 0
   \<and> cosineSimilarity double [Fin (2 ^ 600)] [Fin (2 ^ 600)] = NaN"
proof (intro conjI impI)
  show "cosineSimilarity rnd a b = cosineSimilarity rnd b a"
    by (rule cosineSimilarity_sym)
next
  show "strictEquals (cosineSimilarity rnd a b) (cosineSimilarity rnd b a)
       = (cosineSimilarity rnd a b \<noteq> NaN)"
    by (simp only: cosineSimilarity_sym [of rnd b a] strictEquals_same)
next
  assume "length a \<noteq> length b"
  then show "cosineSimilarity rnd a b = Fin 0" by (simp add: cosineSimilarity_def)
next
  assume "list_all isZero a \<or> list_all isZero b"
  then show "cosineSimilarity rnd a b = Fin 0"
  proof
    assume "list_all isZero a"
    then show ?thesis by (rule cosineSimilarity_zero_left)
  next
    assume "list_all isZero b"
    then have "cosineSimilarity rnd b a = Fin 0" by (rule cosineSimilarity_zero_left)
    then show ?thesis by (simp only: cosineSimilarity_sym [of rnd a b])
  qed
next
  assume "list_all isFinite a" and "list_ex (\<lambda>x. \<not> isZero x) a"
  then show "cosineSimilarity Fin a a = Fin 1" by (rule cosineSimilarity_exact_self)
next
  show "cosineSimilarity double [Fin (1 / 2 ^ 600)] [Fin (1 / 2 ^ 600)] = Fin 0"
    by (rule cosine_underflow)
next
  show "cosineSimilarity double [Fin (2 ^ 600)] [Fin (2 ^ 600)] = NaN"
    by (rule cosine_overflow)
qed

theorem cosineSimilarity_properties_witness:
  "cosineSimilarity double [Fin 3, Fin 4] [Fin 0, NegZero]
     = cosineSimilarity double [Fin 0, NegZero] [Fin 3, Fin 4]
   \<and> cosineSimilarity double [Fin 3, Fin 4] [Fin 0, NegZero] = Fin 0
   \<and> strictEquals (cosineSimilarity double [Fin 3, Fin 4] [Fin 0, NegZero])
        (cosineSimilarity double [Fin 0, NegZero] [Fin 3, Fin 4])
   \<and> cosineSimilarity double [Fin 3, Fin 4] [Fin 1] = Fin 0
   \<and> cosineSimilarity Fin [Fin 3, Fin 4] [Fin 3, Fin 4] = Fin 1"
proof -
  have z: "list_all isZero [Fin 3, Fin 4] \<or> list_all isZero [Fin 0, NegZero]"
    by (simp add: isZero_def)
  have f: "list_all isFinite [Fin 3, Fin 4]" by (simp add: isFinite_def)
  have n: "list_ex (\<lambda>x. \<not> isZero x) [Fin 3, Fin 4]" by (simp add: isZero_def)
  have l: "length [Fin 3, Fin 4] \<noteq> length [Fin 1]" by simp
  from cosineSimilarity_properties [of double "[Fin 3, Fin 4]" "[Fin 0, NegZero]"] z f n
  have 1: "cosineSimilarity double [Fin 3, Fin 4] [Fin 0, NegZero]
             = cosineSimilarity double [Fin 0, NegZero] [Fin 3, Fin 4]"
    and 2: "cosineSimilarity double [Fin 3, Fin 4] [Fin 0, NegZero] = Fin 0"
    and 3: "strictEquals (cosineSimilarity double [Fin 3, Fin 4] [Fin 0, NegZero])
              (cosineSimilarity double [Fin 0, NegZero] [Fin 3, Fin 4])
            = (cosineSimilarity double [Fin 3, Fin 4] [Fin 0, NegZero] \<noteq> NaN)"
    and 5: "cosineSimilarity Fin [Fin 3, Fin 4] [Fin 3, Fin 4] = Fin 1"
    by blast+
  from cosineSimilarity_properties [of double "[Fin 3, Fin 4]" "[Fin 1]"] l
  have 4: "cosineSimilarity double [Fin 3, Fin 4] [Fin 1] = Fin 0" by blast
  from 3 2 have "strictEquals (cosineSimilarity double [Fin 3, Fin 4] [Fin 0, NegZero])
              (cosineSimilarity double [Fin 0, NegZero] [Fin 3, Fin 4])" by simp
  with 1 2 4 5 show ?thesis by blast
qed

subsection \<open>Ranking\<close>
























subsection \<open>Applying an empty enhancement\<close>




























subsection \<open>Failures while processing a note\<close>
























end
